theory Spec2Isabelle
  imports Complex_Main
begin

text \<open>
  A shallow embedding of \<^verbatim>\<open>mantis_xray/file_plugins/__init__.py\<close>: the discovery of the
  file plugins, \<^verbatim>\<open>identify\<close>, \<^verbatim>\<open>load\<close> with its stitching of several selections, and
  \<^verbatim>\<open>interpolate_absdata_flat\<close>.  Exceptions are values of a sum type.  Array entries and
  coordinates are real numbers.  The plugins' \<^verbatim>\<open>identify\<close> and \<^verbatim>\<open>read\<close>, the constructor
  \<^verbatim>\<open>data_stack.data\<close> and scipy's \<^verbatim>\<open>griddata\<close> live outside the module and are parameters.
  Printing and logging are left out.
\<close>

section \<open>Python values used by file\_plugins/\_\_init\_\_.py\<close>

text \<open>
  The exceptions that the modelled code can raise or catch.  \<open>ModuleNotFoundError\<close> is a
  subclass of \<open>ImportError\<close>, \<open>UnboundLocalError\<close> is what Python raises when a local
  variable is read before any assignment to it has run.
\<close>

datatype pyexc =
    ImportError
  | ModuleNotFoundError
  | AttributeError
  | IndexError
  | ValueError
  | UnboundLocalError
  | OtherError string

text \<open>\<^verbatim>\<open>except ImportError\<close> catches the class and its subclasses.\<close>

fun except_ImportError :: "pyexc \<Rightarrow> bool" where
  "except_ImportError ImportError = True"
| "except_ImportError ModuleNotFoundError = True"
| "except_ImportError _ = False"

subsection \<open>os.path.splitext (POSIX flavour)\<close>

text \<open>
  \<^verbatim>\<open>os.path.splitext(p)[1]\<close>: the extension starts at the last dot of the last path
  component, provided some character other than a dot precedes it in that component;
  otherwise it is empty.
\<close>

definition basename :: "string \<Rightarrow> string" where
  "basename p = rev (takeWhile (\<lambda>c. c \<noteq> CHR ''/'') (rev p))"

definition splitext_ext :: "string \<Rightarrow> string" where
  "splitext_ext p =
     (let b = basename p;
          t = takeWhile (\<lambda>c. c \<noteq> CHR ''.'') (rev b)
      in if length t = length b then []
         else if list_ex (\<lambda>c. c \<noteq> CHR ''.'') (take (length b - length t - 1) b)
              then CHR ''.'' # rev t
              else [])"

section \<open>Data cubes (3-dimensional numpy arrays)\<close>

text \<open>
  A cube is indexed (row, column, slice).  The shape is kept beside the nested list of
  entries because a numpy array of shape \<open>(0, C, E)\<close> still knows \<open>C\<close> and \<open>E\<close>.
\<close>

record cube =
  shape0 :: nat
  shape1 :: nat
  shape2 :: nat
  elems :: "real list list list"

definition wf_cube :: "cube \<Rightarrow> bool" where
  "wf_cube c \<longleftrightarrow>
     length (elems c) = shape0 c \<and>
     list_all (\<lambda>row. length row = shape1 c \<and> list_all (\<lambda>col. length col = shape2 c) row)
       (elems c)"

definition at3 :: "cube \<Rightarrow> nat \<Rightarrow> nat \<Rightarrow> nat \<Rightarrow> real" where
  "at3 c r k e = elems c ! r ! k ! e"

section \<open>Capability providers\<close>

datatype 'j json_arg = Omitted | Given "'j option"

text \<open>
  A coordinate array is 1-dimensional or 2-dimensional; a 2-dimensional one carries its
  column count and its rows.
\<close>

datatype dist = D1 "real list" | D2 nat "real list list"

record 'ds stack =
  data_struct :: 'ds
  absdata :: cube
  x_dist :: dist
  y_dist :: dist
  n_cols :: int
  n_rows :: int
  x_dist_instr :: dist
  y_dist_instr :: dist
  absdata_interpolated :: "cube option"

text \<open>
  A plugin module.  \<open>plugin_read\<close> is \<open>None\<close> when the module defines no \<^verbatim>\<open>read\<close>
  (this is what discovery tests); \<open>plugin_identify\<close> is the content probe, whose answer
  depends on the file behind the name.
\<close>

record ('ds, 'sel, 'j) plugin =
  title :: string
  extension :: "string list"
  plugin_identify :: "string \<Rightarrow> bool"
  plugin_read ::
    "(string \<Rightarrow> 'ds stack \<Rightarrow> 'sel option \<Rightarrow> 'j json_arg \<Rightarrow> pyexc + 'ds stack) option"

section \<open>identify\<close>

text \<open>
  How the \<^verbatim>\<open>for\<close> loop of \<^verbatim>\<open>identify\<close> was left: by \<^verbatim>\<open>return P\<close>, by \<^verbatim>\<open>break\<close>, or by
  running out of plugins.
\<close>

datatype 'p scan_exit = Returned 'p | Broke | Exhausted

record ('ds, 'sel, 'j) scan =
  scan_exit :: "('ds, 'sel, 'j) plugin scan_exit"
  flag :: "bool list"
  probed :: "nat list"

text \<open>
  The loop over \<^verbatim>\<open>enumerate(plugins)\<close>.  \<open>probed\<close> records, in order, the indices of the
  plugins whose \<^verbatim>\<open>identify\<close> was called.
\<close>

fun identify_loop ::
  "string \<Rightarrow> string \<Rightarrow> bool list \<Rightarrow> nat list \<Rightarrow> (nat \<times> ('ds, 'sel, 'j) plugin) list
     \<Rightarrow> ('ds, 'sel, 'j) scan" where
  "identify_loop filename ext flg prb [] =
     \<lparr>scan_exit = Exhausted, flag = flg, probed = prb\<rparr>"
| "identify_loop filename ext flg prb ((i, P) # rest) =
     (if (CHR ''*'' # ext) \<in> set (extension P) then
        (if plugin_identify P filename then
           \<lparr>scan_exit = Returned P, flag = flg, probed = prb @ [i]\<rparr>
         else if flg ! i = True then
           identify_loop filename ext (flg[i := False]) (prb @ [i]) rest
         else
           \<lparr>scan_exit = Broke, flag = flg, probed = prb @ [i]\<rparr>)
      else identify_loop filename ext flg prb rest)"

definition identify_scan ::
  "('ds, 'sel, 'j) plugin list \<Rightarrow> string \<Rightarrow> ('ds, 'sel, 'j) scan" where
  "identify_scan plugins filename =
     identify_loop filename (splitext_ext filename)
       (replicate (length plugins) True) [] (enumerate 0 plugins)"

definition identify ::
  "('ds, 'sel, 'j) plugin list \<Rightarrow> string \<Rightarrow> ('ds, 'sel, 'j) plugin option" where
  "identify plugins filename =
     (case scan_exit (identify_scan plugins filename) of
        Returned P \<Rightarrow> Some P
      | Broke \<Rightarrow> None
      | Exhausted \<Rightarrow> None)"

text \<open>The two tests a plugin has to pass to be chosen.\<close>

definition ext_matches :: "string \<Rightarrow> ('ds, 'sel, 'j) plugin \<Rightarrow> bool" where
  "ext_matches filename P \<longleftrightarrow> (CHR ''*'' # splitext_ext filename) \<in> set (extension P)"

definition confirms :: "string \<Rightarrow> ('ds, 'sel, 'j) plugin \<Rightarrow> bool" where
  "confirms filename P \<longleftrightarrow> ext_matches filename P \<and> plugin_identify P filename"

section \<open>Discovery of the plugins\<close>

text \<open>
  The module-level loop over \<^verbatim>\<open>pkgutil.iter_modules\<close>.  Each candidate is given by what
  loading it does: it raises (\<open>Inl\<close>), or it yields a module (\<open>Inr\<close>).  Only
  \<^verbatim>\<open>ImportError\<close> is caught; a module is appended when \<^verbatim>\<open>'read' in dir(module)\<close>.
\<close>

fun discover_loop ::
  "('ds, 'sel, 'j) plugin list \<Rightarrow> (pyexc + ('ds, 'sel, 'j) plugin) list
     \<Rightarrow> pyexc + ('ds, 'sel, 'j) plugin list" where
  "discover_loop plugins [] = Inr plugins"
| "discover_loop plugins (Inl e # ms) =
     (if except_ImportError e then discover_loop plugins ms else Inl e)"
| "discover_loop plugins (Inr m # ms) =
     (if plugin_read m \<noteq> None then discover_loop (plugins @ [m]) ms
      else discover_loop plugins ms)"

definition discover ::
  "(pyexc + ('ds, 'sel, 'j) plugin) list \<Rightarrow> pyexc + ('ds, 'sel, 'j) plugin list" where
  "discover ms = discover_loop [] ms"

section \<open>The numpy operations that the module uses\<close>

definition zeros_like :: "cube \<Rightarrow> cube" where
  "zeros_like c =
     c\<lparr>elems := replicate (shape0 c) (replicate (shape1 c) (replicate (shape2 c) 0))\<rparr>"

text \<open>\<^verbatim>\<open>numpy.pad(c, ((0,0),(0,k),(0,0)), mode='constant', constant_values=0)\<close>\<close>

definition pad_columns :: "cube \<Rightarrow> nat \<Rightarrow> cube" where
  "pad_columns c k =
     c\<lparr>shape1 := shape1 c + k,
       elems := map (\<lambda>row. row @ replicate k (replicate (shape2 c) 0)) (elems c)\<rparr>"

text \<open>\<^verbatim>\<open>numpy.vstack((a, b))\<close>: the trailing dimensions have to agree.\<close>

definition vstack :: "cube \<Rightarrow> cube \<Rightarrow> pyexc + cube" where
  "vstack a b =
     (if shape1 a = shape1 b \<and> shape2 a = shape2 b
      then Inr (a\<lparr>shape0 := shape0 a + shape0 b, elems := elems a @ elems b\<rparr>)
      else Inl ValueError)"

definition arange :: "nat \<Rightarrow> real list" where
  "arange n = map real [0..<n]"

definition linspace :: "real \<Rightarrow> real \<Rightarrow> nat \<Rightarrow> real list" where
  "linspace start stop num =
     (if num = 1 then [start]
      else map (\<lambda>k. start + real k * ((stop - start) / real (num - 1))) [0..<num])"

text \<open>\<^verbatim>\<open>numpy.meshgrid(x, y)\<close> with the default \<^verbatim>\<open>indexing='xy'\<close>.\<close>

definition meshgrid :: "real list \<Rightarrow> real list \<Rightarrow> real list list \<times> real list list" where
  "meshgrid x y = (replicate (length y) x, map (\<lambda>v. replicate (length x) v) y)"

text \<open>\<^verbatim>\<open>a.min(), a.max()\<close> of a 1-dimensional array; an empty one raises.\<close>

definition min_max :: "real list \<Rightarrow> pyexc + real \<times> real" where
  "min_max xs =
     (case xs of [] \<Rightarrow> Inl ValueError
      | v # vs \<Rightarrow> Inr (fold min vs v, fold max vs v))"

text \<open>\<^verbatim>\<open>a[:, i]\<close> of a 2-dimensional array with \<open>m\<close> columns.\<close>

definition column :: "nat \<Rightarrow> real list list \<Rightarrow> nat \<Rightarrow> pyexc + real list" where
  "column m rows i = (if i < m then Inr (map (\<lambda>row. row ! i) rows) else Inl IndexError)"

text \<open>\<^verbatim>\<open>a.reshape(r, c)\<close> of an array given by its entries in row-major order.\<close>

definition reshape :: "real list \<Rightarrow> nat \<Rightarrow> nat \<Rightarrow> pyexc + real list list" where
  "reshape flat r c =
     (if length flat = r * c then Inr (map (\<lambda>i. take c (drop (i * c) flat)) [0..<r])
      else Inl ValueError)"

definition column_stack :: "real list list \<Rightarrow> real list list \<Rightarrow> real list list" where
  "column_stack a b = map2 (@) a b"

text \<open>\<^verbatim>\<open>absdata[:, :, i]\<close>\<close>

definition slice2 :: "cube \<Rightarrow> nat \<Rightarrow> real list list" where
  "slice2 c i = map (map (\<lambda>col. col ! i)) (elems c)"

text \<open>\<^verbatim>\<open>m.ravel()\<close> and \<^verbatim>\<open>m.T.reshape(-1)\<close>\<close>

definition ravel :: "real list list \<Rightarrow> real list" where
  "ravel m = concat m"

definition ravel_T :: "real list list \<Rightarrow> real list" where
  "ravel_T m = concat (transpose m)"

text \<open>The in-place assignment \<^verbatim>\<open>c[:, :, i] = m\<close>.\<close>

definition set_slice :: "cube \<Rightarrow> nat \<Rightarrow> real list list \<Rightarrow> cube" where
  "set_slice c i m =
     c\<lparr>elems := map2 (\<lambda>row mrow. map2 (\<lambda>col v. col[i := v]) row mrow) (elems c) m\<rparr>"

section \<open>The grid resampler\<close>

text \<open>
  \<^verbatim>\<open>scipy.interpolate.griddata\<close> is a parameter of the model.  A call is the record of
  its arguments; the result is an exception or a 2-dimensional array.  Arrays live in a
  store (a list of cubes addressed by position), so that the in-place writes of the
  resampler and the array they hit are explicit.
\<close>

datatype gd_method = Nearest | Linear | Cubic

datatype gd_points = PointsTuple "real list" "real list" | PointsArray "real list list"

record gd_call =
  call_points :: gd_points
  call_values :: "real list"
  call_xi :: "real list list \<times> real list list"
  call_method :: gd_method

type_synonym griddata = "gd_call \<Rightarrow> pyexc + real list list"

type_synonym store = "cube list"

definition alloc :: "store \<Rightarrow> cube \<Rightarrow> store \<times> nat" where
  "alloc st c = (st @ [c], length st)"

text \<open>Lines 160-168: the range of a coordinate array (of its column 0 when 2-dimensional).\<close>

fun axis_range :: "dist \<Rightarrow> pyexc + real \<times> real" where
  "axis_range (D1 xs) = min_max xs"
| "axis_range (D2 m rows) =
     (case column m rows 0 of Inl e \<Rightarrow> Inl e | Inr col \<Rightarrow> min_max col)"

text \<open>
  Lines 183-188: the loop of the branch taken when both coordinate arrays are
  1-dimensional.  \<open>a\<close> is the address of \<^verbatim>\<open>absdata\<close>, \<open>out\<close> that of
  \<^verbatim>\<open>absdata_dist_corr\<close>; \<open>tr\<close> collects the calls of \<^verbatim>\<open>griddata\<close>.
\<close>

fun flat_loop ::
  "griddata \<Rightarrow> real list \<Rightarrow> real list \<Rightarrow> real list list \<times> real list list \<Rightarrow> nat \<Rightarrow> nat
     \<Rightarrow> nat \<Rightarrow> nat \<Rightarrow> store \<Rightarrow> gd_call list \<Rightarrow> nat list \<Rightarrow> gd_call list \<times> (pyexc + store)"
  where
  "flat_loop gd xs ys grid a out x_values y_values st tr [] = (tr, Inr st)"
| "flat_loop gd xs ys grid a out x_values y_values st tr (i # is) =
     (let values = ravel_T (slice2 (st ! a) i);
          call = \<lparr>call_points = PointsTuple xs ys, call_values = values,
                  call_xi = grid, call_method = Nearest\<rparr>
      in case gd call of
           Inl e \<Rightarrow> (tr @ [call], Inl e)
         | Inr g \<Rightarrow>
             (case reshape (ravel g) x_values y_values of
                Inl e \<Rightarrow> (tr @ [call], Inl e)
              | Inr m \<Rightarrow>
                  flat_loop gd xs ys grid a out x_values y_values
                    (st[out := set_slice (st ! out) i m]) (tr @ [call]) is))"

text \<open>
  Lines 191-194: \<^verbatim>\<open>x_min_i, x_max_i\<close> are assigned only when the array is
  2-dimensional; otherwise they keep what they held (\<open>None\<close>: never assigned).
\<close>

fun slice_range ::
  "dist \<Rightarrow> nat \<Rightarrow> (real \<times> real) option \<Rightarrow> pyexc + (real \<times> real) option" where
  "slice_range (D2 m rows) i prev =
     (case column m rows i of Inl e \<Rightarrow> Inl e
      | Inr col \<Rightarrow> (case min_max col of Inl e \<Rightarrow> Inl e | Inr r \<Rightarrow> Inr (Some r)))"
| "slice_range (D1 xs) i prev = Inr prev"

text \<open>
  Lines 190-201: the loop of the other branch.  \<open>original_points\<close> is the local variable
  of that name, \<open>None\<close> while unassigned; \<open>xr\<close> and \<open>yr\<close> are the locals
  \<^verbatim>\<open>x_min_i, x_max_i\<close> and \<^verbatim>\<open>y_min_i, y_max_i\<close>.
\<close>

fun slice_loop ::
  "griddata \<Rightarrow> dist \<Rightarrow> dist \<Rightarrow> gd_points option \<Rightarrow> nat \<Rightarrow> nat \<Rightarrow> nat \<Rightarrow> nat
     \<Rightarrow> (real \<times> real) option \<Rightarrow> (real \<times> real) option \<Rightarrow> store \<Rightarrow> gd_call list \<Rightarrow> nat list
     \<Rightarrow> gd_call list \<times> (pyexc + store)" where
  "slice_loop gd xdist ydist original_points a out x_values y_values xr yr st tr [] =
     (tr, Inr st)"
| "slice_loop gd xdist ydist original_points a out x_values y_values xr yr st tr (i # is) =
     (case slice_range xdist i xr of
        Inl e \<Rightarrow> (tr, Inl e)
      | Inr xr' \<Rightarrow>
     (case slice_range ydist i yr of
        Inl e \<Rightarrow> (tr, Inl e)
      | Inr yr' \<Rightarrow>
     (case xr' of
        None \<Rightarrow> (tr, Inl UnboundLocalError)
      | Some (x_min_i, x_max_i) \<Rightarrow>
     (case yr' of
        None \<Rightarrow> (tr, Inl UnboundLocalError)
      | Some (y_min_i, y_max_i) \<Rightarrow>
     (let x_i = linspace x_min_i x_max_i x_values;
          y_i = linspace y_min_i y_max_i y_values;
          grid_new = meshgrid x_i y_i;
          values = ravel (slice2 (st ! a) i)
      in case original_points of
           None \<Rightarrow> (tr, Inl UnboundLocalError)
         | Some pts \<Rightarrow>
             (let call = \<lparr>call_points = pts, call_values = values,
                          call_xi = grid_new, call_method = Cubic\<rparr>
              in case gd call of
                   Inl e \<Rightarrow> (tr @ [call], Inl e)
                 | Inr g \<Rightarrow>
                     (case reshape (ravel g) x_values y_values of
                        Inl e \<Rightarrow> (tr @ [call], Inl e)
                      | Inr m \<Rightarrow>
                          slice_loop gd xdist ydist original_points a out
                            x_values y_values xr' yr'
                            (st[out := set_slice (st ! out) i m]) (tr @ [call]) is)))))))"

text \<open>
  Lines 176-182: what the 1-dimensional branch does before its loop.  With \<^verbatim>\<open>flat\<close>
  the coordinate arrays are reshaped to the cube's rows and columns and stacked into
  \<^verbatim>\<open>original_points\<close>; without it a mesh is built, which cannot fail and is not used.
\<close>

definition flat_points ::
  "bool \<Rightarrow> real list \<Rightarrow> real list \<Rightarrow> nat \<Rightarrow> nat \<Rightarrow> pyexc + gd_points option" where
  "flat_points flat xs ys r c =
     (if flat then
        (case reshape xs r c of
           Inl e \<Rightarrow> Inl e
         | Inr xx_new \<Rightarrow>
             (case reshape ys r c of
                Inl e \<Rightarrow> Inl e
              | Inr yy_new \<Rightarrow> Inr (Some (PointsArray (column_stack xx_new yy_new)))))
      else Inr None)"

text \<open>
  \<^verbatim>\<open>interpolate_absdata_flat(absdata, x_dist, y_dist, flat)\<close>, with \<^verbatim>\<open>absdata\<close> the array
  at address \<open>a\<close> of the store.  The result is the list of \<^verbatim>\<open>griddata\<close> calls made and
  either the exception raised or the final store with the address of the returned array.
\<close>

definition interpolate_absdata_flat ::
  "griddata \<Rightarrow> store \<Rightarrow> nat \<Rightarrow> dist \<Rightarrow> dist \<Rightarrow> bool
     \<Rightarrow> gd_call list \<times> (pyexc + store \<times> nat)" where
  "interpolate_absdata_flat gd st a xdist ydist flat =
     (let x_values = shape0 (st ! a);
          y_values = shape1 (st ! a);
          (st1, out) = alloc st (zeros_like (st ! a))
      in case axis_range xdist of
           Inl e \<Rightarrow> ([], Inl e)
         | Inr (x_min, x_max) \<Rightarrow>
      (case axis_range ydist of
           Inl e \<Rightarrow> ([], Inl e)
         | Inr (y_min, y_max) \<Rightarrow>
      (let x = linspace x_min x_max x_values;
           y = linspace y_min y_max y_values;
           grid = meshgrid x y;
           slices = [0..<shape2 (st1 ! a)]
       in case (xdist, ydist) of
            (D1 xs, D1 ys) \<Rightarrow>
              (case flat_points flat xs ys x_values y_values of
                 Inl e \<Rightarrow> ([], Inl e)
               | Inr original_points \<Rightarrow>
                   (case flat_loop gd xs ys grid a out x_values y_values st1 [] slices of
                      (tr, Inl e) \<Rightarrow> (tr, Inl e)
                    | (tr, Inr st2) \<Rightarrow> (tr, Inr (st2, out))))
          | _ \<Rightarrow>
              (case slice_loop gd xdist ydist None a out x_values y_values
                      None None st1 [] slices of
                 (tr, Inl e) \<Rightarrow> (tr, Inl e)
               | (tr, Inr st2) \<Rightarrow> (tr, Inr (st2, out))))))"

section \<open>load\<close>

text \<open>Which object a call of \<^verbatim>\<open>plugin.read\<close> was given, and with which selection.\<close>

datatype read_target = Target | Scratch

type_synonym ('ds, 'sel, 'j) reader =
  "string \<Rightarrow> 'ds stack \<Rightarrow> 'sel option \<Rightarrow> 'j json_arg \<Rightarrow> pyexc + 'ds stack"

text \<open>
  Lines 225-231: the loop over \<^verbatim>\<open>selection[1:]\<close>.  \<open>full_stack\<close> is the accumulated cube,
  \<open>temp_stack\<close> the scratch object that every further read fills.
\<close>

fun stitch_loop ::
  "('ds, 'sel, 'j) reader \<Rightarrow> string \<Rightarrow> cube \<Rightarrow> 'ds stack \<Rightarrow> (read_target \<times> 'sel option) list
     \<Rightarrow> 'sel list \<Rightarrow> pyexc + cube \<times> 'ds stack \<times> (read_target \<times> 'sel option) list" where
  "stitch_loop rd filename full_stack temp_stack reads [] = Inr (full_stack, temp_stack, reads)"
| "stitch_loop rd filename full_stack temp_stack reads (s # ss) =
     (case rd filename temp_stack (Some s) Omitted of
        Inl e \<Rightarrow> Inl e
      | Inr temp1 \<Rightarrow>
          (let temp2 =
                 (if shape1 full_stack > shape1 (absdata temp1)
                  then temp1\<lparr>absdata :=
                         pad_columns (absdata temp1)
                           (shape1 full_stack - shape1 (absdata temp1))\<rparr>
                  else temp1);
               full2 =
                 (if shape1 full_stack > shape1 (absdata temp1) then full_stack
                  else if shape1 full_stack < shape1 (absdata temp1)
                  then pad_columns full_stack (shape1 (absdata temp1) - shape1 full_stack)
                  else full_stack)
           in case vstack full2 (absdata temp2) of
                Inl e \<Rightarrow> Inl e
              | Inr full3 \<Rightarrow>
                  stitch_loop rd filename full3 temp2 (reads @ [(Scratch, Some s)]) ss))"

text \<open>
  Lines 216-237: filling the cube of \<^verbatim>\<open>stack_object\<close>.  \<open>data_stack_data\<close> stands for the
  constructor \<^verbatim>\<open>data_stack.data\<close>, which lives in another module.
\<close>

fun load_read ::
  "('ds, 'sel, 'j) reader \<Rightarrow> ('ds \<Rightarrow> 'ds stack) \<Rightarrow> string \<Rightarrow> 'ds stack \<Rightarrow> 'sel list option
     \<Rightarrow> 'j option \<Rightarrow> pyexc + 'ds stack \<times> (read_target \<times> 'sel option) list" where
  "load_read rd data_stack_data filename stack_object None json =
     (case rd filename stack_object None (Given json) of
        Inl e \<Rightarrow> Inl e
      | Inr so1 \<Rightarrow> Inr (so1, [(Target, None)]))"
| "load_read rd data_stack_data filename stack_object (Some [s]) json =
     (case rd filename stack_object (Some s) (Given json) of
        Inl e \<Rightarrow> Inl e
      | Inr so1 \<Rightarrow> Inr (so1, [(Target, Some s)]))"
| "load_read rd data_stack_data filename stack_object (Some []) json = Inl IndexError"
| "load_read rd data_stack_data filename stack_object (Some (s # s' # ss)) json =
     (case rd filename stack_object (Some s) (Given json) of
        Inl e \<Rightarrow> Inl e
      | Inr so1 \<Rightarrow>
          (case stitch_loop rd filename (absdata so1) (data_stack_data (data_struct so1))
                  [(Target, Some s)] (s' # ss) of
             Inl e \<Rightarrow> Inl e
           | Inr (full_stack, temp_stack, reads) \<Rightarrow>
               Inr (so1\<lparr>absdata := full_stack,
                        x_dist := D1 (arange (shape0 full_stack)),
                        y_dist := D1 (arange (shape1 full_stack)),
                        n_cols := int (length (arange (shape0 full_stack))),
                        n_rows := int (length (arange (shape1 full_stack)))\<rparr>, reads)))"

text \<open>
  \<^verbatim>\<open>load(filename, stack_object, plugin, selection, json)\<close>.  Python's return value is
  \<^verbatim>\<open>None\<close> on every path that returns; the model returns the object as the call leaves
  it and the reads that were made.  For the resampling step the cube of the object is
  the one array of a store, read back afterwards.
\<close>

definition load ::
  "griddata \<Rightarrow> ('ds \<Rightarrow> 'ds stack) \<Rightarrow> ('ds, 'sel, 'j) plugin list \<Rightarrow> string \<Rightarrow> 'ds stack
     \<Rightarrow> ('ds, 'sel, 'j) plugin option \<Rightarrow> 'sel list option \<Rightarrow> 'j option
     \<Rightarrow> pyexc + 'ds stack \<times> (read_target \<times> 'sel option) list" where
  "load gd data_stack_data plugins filename stack_object plugin selection json =
     (case (case plugin of None \<Rightarrow> identify plugins filename | Some P \<Rightarrow> Some P) of
        None \<Rightarrow> Inr (stack_object, [])
      | Some P \<Rightarrow>
          (case plugin_read P of
             None \<Rightarrow> Inl AttributeError
           | Some rd \<Rightarrow>
               (case load_read rd data_stack_data filename stack_object selection json of
                  Inl e \<Rightarrow> Inl e
                | Inr (so1, reads) \<Rightarrow>
                    (case snd (interpolate_absdata_flat gd [absdata so1] 0
                                 (x_dist_instr so1) (y_dist_instr so1) True) of
                       Inl e \<Rightarrow> Inl e
                     | Inr (st, out) \<Rightarrow>
                         Inr (so1\<lparr>absdata := st ! 0,
                                  absdata_interpolated := Some (st ! out)\<rparr>, reads)))))"

section \<open>Reference notions for the properties\<close>

text \<open>
  The order in which the content probes are expected to run: every plugin whose extension
  list holds the pattern, in registration order, up to and including the first one that
  confirms.  \<open>n\<close> is the index of the first plugin of the list.
\<close>

definition probe_order :: "string \<Rightarrow> nat \<Rightarrow> ('ds, 'sel, 'j) plugin list \<Rightarrow> nat list" where
  "probe_order filename n plugins =
     (let ms = filter (\<lambda>(i, P). ext_matches filename P) (enumerate n plugins)
      in map fst (takeWhile (\<lambda>(i, P). \<not> plugin_identify P filename) ms
                  @ take 1 (dropWhile (\<lambda>(i, P). \<not> plugin_identify P filename) ms)))"

text \<open>The modules that loaded and define \<^verbatim>\<open>read\<close>, in the order of the candidates.\<close>

definition loaded_with_read ::
  "(pyexc + ('ds, 'sel, 'j) plugin) list \<Rightarrow> ('ds, 'sel, 'j) plugin list" where
  "loaded_with_read ms =
     concat (map (\<lambda>c. case c of Inl e \<Rightarrow> [] | Inr m \<Rightarrow> if plugin_read m \<noteq> None then [m] else []) ms)"

text \<open>
  \<open>stitched A B M\<close>: the cube \<open>M\<close> holds the rows of \<open>A\<close> followed by the rows of \<open>B\<close>,
  each row filled with zeros up to the wider of the two column counts.
\<close>

definition stitched :: "cube \<Rightarrow> cube \<Rightarrow> cube \<Rightarrow> bool" where
  "stitched A B M \<longleftrightarrow>
     wf_cube M \<and> shape0 M = shape0 A + shape0 B \<and> shape1 M = max (shape1 A) (shape1 B)
     \<and> shape2 M = shape2 A
     \<and> (\<forall>r < shape0 A. \<forall>k < shape1 M. \<forall>e < shape2 A.
           at3 M r k e = (if k < shape1 A then at3 A r k e else 0))
     \<and> (\<forall>r < shape0 B. \<forall>k < shape1 M. \<forall>e < shape2 A.
           at3 M (shape0 A + r) k e = (if k < shape1 B then at3 B r k e else 0))"

text \<open>
  The \<^verbatim>\<open>griddata\<close> call expected for slice \<open>i\<close> of the cube \<open>c\<close> when both coordinate
  arrays are 1-dimensional, and the one target grid shared by all slices.
\<close>

definition nearest_call ::
  "real list \<Rightarrow> real list \<Rightarrow> real list list \<times> real list list \<Rightarrow> cube \<Rightarrow> nat \<Rightarrow> gd_call" where
  "nearest_call xs ys grid c i =
     \<lparr>call_points = PointsTuple xs ys, call_values = ravel_T (slice2 c i),
      call_xi = grid, call_method = Nearest\<rparr>"

definition shared_grid :: "real list \<Rightarrow> real list \<Rightarrow> cube \<Rightarrow> real list list \<times> real list list" where
  "shared_grid xs ys c =
     meshgrid (linspace (Min (set xs)) (Max (set xs)) (shape0 c))
              (linspace (Min (set ys)) (Max (set ys)) (shape1 c))"

section \<open>Example inputs\<close>

text \<open>
  Two sub-scans of one slice each, one column and two columns wide, and the cube they
  stitch to; a reader that delivers them; a stand-in for \<^verbatim>\<open>griddata\<close> that hands the
  values back unchanged; two plugins claiming \<^verbatim>\<open>*.hdf5\<close>, of which only the second
  confirms, and a module without \<^verbatim>\<open>read\<close>.
\<close>

definition cubeA :: cube where
  "cubeA = \<lparr>shape0 = 1, shape1 = 1, shape2 = 1, elems = [[[1]]]\<rparr>"
definition cubeB :: cube where
  "cubeB = \<lparr>shape0 = 1, shape1 = 2, shape2 = 1, elems = [[[2], [3]]]\<rparr>"
definition cubeM :: cube where
  "cubeM = \<lparr>shape0 = 2, shape1 = 2, shape2 = 1, elems = [[[1], [0]], [[2], [3]]]\<rparr>"

definition demo_read :: "(unit, nat, unit) reader" where
  "demo_read filename obj sel js =
     Inr (obj\<lparr>absdata := (case sel of Some (Suc n) \<Rightarrow> cubeB | _ \<Rightarrow> cubeA),
              x_dist_instr := D1 [0, 1, 0, 1], y_dist_instr := D1 [0, 0, 1, 1]\<rparr>)"

definition demo_stack :: "unit stack" where
  "demo_stack = \<lparr>data_struct = (), absdata = \<lparr>shape0 = 0, shape1 = 0, shape2 = 0, elems = []\<rparr>,
      x_dist = D1 [], y_dist = D1 [], n_cols = 0, n_rows = 0,
      x_dist_instr = D1 [], y_dist_instr = D1 [], absdata_interpolated = None\<rparr>"

definition griddata_stub :: griddata where
  "griddata_stub call = Inr [call_values call]"

definition pA :: "(unit, nat, unit) plugin" where
  "pA = \<lparr>title = ''A'', extension = [''*.hdf5'', ''*.h5''], plugin_identify = (\<lambda>f. False), plugin_read = Some demo_read\<rparr>"
definition pB :: "(unit, nat, unit) plugin" where
  "pB = \<lparr>title = ''B'', extension = [''*.hdf5''], plugin_identify = (\<lambda>f. True), plugin_read = Some demo_read\<rparr>"

definition pNoRead :: "(unit, nat, unit) plugin" where
  "pNoRead = \<lparr>title = ''helper'', extension = [], plugin_identify = (\<lambda>f. False), plugin_read = None\<rparr>"

text \<open>What the example load leaves in the target object before and after resampling.\<close>

definition demo_interpolated :: cube where
  "demo_interpolated = \<lparr>shape0 = 2, shape1 = 2, shape2 = 1, elems = [[[1], [2]], [[0], [3]]]\<rparr>"

definition demo_filled :: "unit stack" where
  "demo_filled = \<lparr>data_struct = (), absdata = cubeM,
      x_dist = D1 [0, 1], y_dist = D1 [0, 1], n_cols = 2, n_rows = 2,
      x_dist_instr = D1 [0, 1, 0, 1], y_dist_instr = D1 [0, 0, 1, 1],
      absdata_interpolated = None\<rparr>"

section \<open>Properties of identify\<close>

lemma identify_loop_inv:
  assumes "\<forall>j. n \<le> j \<and> j < n + length ps \<longrightarrow> flg ! j"
  shows "scan_exit (identify_loop filename (splitext_ext filename) flg prb (enumerate n ps))
           = (case find (confirms filename) ps of None \<Rightarrow> Exhausted | Some P \<Rightarrow> Returned P)
         \<and> probed (identify_loop filename (splitext_ext filename) flg prb (enumerate n ps))
           = prb @ probe_order filename n ps"
  using assms
proof (induction ps arbitrary: n flg prb)
  case Nil
  then show ?case by (simp add: probe_order_def)
next
  case (Cons P ps)
  have hd: "flg ! n" using Cons.prems by simp
  have tl: "\<forall>j. Suc n \<le> j \<and> j < Suc n + length ps \<longrightarrow> (flg[n := False]) ! j"
    using Cons.prems by simp
  have tl': "\<forall>j. Suc n \<le> j \<and> j < Suc n + length ps \<longrightarrow> flg ! j"
    using Cons.prems by simp
  show ?case
  proof (cases "ext_matches filename P")
    case False
    then show ?thesis
      using Cons.IH[OF tl', of prb]
      by (simp add: ext_matches_def confirms_def probe_order_def Let_def)
  next
    case True
    show ?thesis
    proof (cases "plugin_identify P filename")
      case True
      with \<open>ext_matches filename P\<close> show ?thesis
        by (simp add: ext_matches_def confirms_def probe_order_def Let_def)
    next
      case False
      with \<open>ext_matches filename P\<close> hd show ?thesis
        using Cons.IH[OF tl, of "prb @ [n]"]
        by (simp add: ext_matches_def confirms_def probe_order_def Let_def)
    qed
  qed
qed

lemma identify_scan_exit:
  "scan_exit (identify_scan plugins filename)
     = (case find (confirms filename) plugins of None \<Rightarrow> Exhausted | Some P \<Rightarrow> Returned P)"
  unfolding identify_scan_def
  using identify_loop_inv[of 0 plugins "replicate (length plugins) True" filename "[]"]
  by simp

lemma identify_scan_probed:
  "probed (identify_scan plugins filename) = probe_order filename 0 plugins"
  unfolding identify_scan_def
  using identify_loop_inv[of 0 plugins "replicate (length plugins) True" filename "[]"]
  by simp

lemma identify_find: "identify plugins filename = find (confirms filename) plugins"
  by (simp add: identify_def identify_scan_exit split: option.splits)

text \<open>
  C1.  For every registry and every filename, \<^verbatim>\<open>identify\<close> returns the first plugin in
  registration order whose extension list holds the pattern of the file's extension and
  whose content probe answers true (and \<^verbatim>\<open>None\<close> when there is none).  In particular,
  with \<open>A\<close> and \<open>B\<close> registered in this order, both matching the extension, \<open>A\<close> probing
  false and \<open>B\<close> probing true, the result is \<open>B\<close>.
\<close>

theorem identify_first_confirming:
  "identify plugins filename = find (confirms filename) plugins
   \<and> (ext_matches filename A \<and> \<not> plugin_identify A filename
        \<and> ext_matches filename B \<and> plugin_identify B filename
      \<longrightarrow> identify [A, B] filename = Some B)"
  by (simp add: identify_find confirms_def)

theorem identify_first_confirming_witness:
  "identify [pA, pB] ''/data/scan.hdf5'' = Some pB
   \<and> ext_matches ''/data/scan.hdf5'' pA \<and> \<not> plugin_identify pA ''/data/scan.hdf5''
   \<and> ext_matches ''/data/scan.hdf5'' pB \<and> plugin_identify pB ''/data/scan.hdf5''"
proof -
  have h: "ext_matches ''/data/scan.hdf5'' pA \<and> \<not> plugin_identify pA ''/data/scan.hdf5''
        \<and> ext_matches ''/data/scan.hdf5'' pB \<and> plugin_identify pB ''/data/scan.hdf5''"
    by (simp add: ext_matches_def splitext_ext_def basename_def pA_def pB_def)
  from identify_first_confirming[of "[pA, pB]" "''/data/scan.hdf5''" pA pB] h
  show ?thesis by blast
qed

text \<open>
  C2.  When the pattern of the file's extension is in no registered plugin's extension
  list, \<^verbatim>\<open>identify\<close> returns \<^verbatim>\<open>None\<close> (a value, the model has no exception on this
  path) and no content probe has been called.
\<close>

theorem identify_no_extension_match:
  "\<forall>P \<in> set plugins. \<not> ext_matches filename P \<Longrightarrow>
     identify plugins filename = None \<and> probed (identify_scan plugins filename) = []"
proof -
  assume a: "\<forall>P \<in> set plugins. \<not> ext_matches filename P"
  have "find (confirms filename) plugins = None"
    using a by (auto simp: find_None_iff confirms_def)
  moreover have "filter (\<lambda>(i, P). ext_matches filename P) (enumerate 0 plugins) = []"
    using a by (auto simp: filter_empty_conv in_set_enumerate_eq)
  ultimately show ?thesis
    by (simp add: identify_find identify_scan_probed probe_order_def)
qed

theorem identify_no_extension_match_witness:
  "\<not> ext_matches ''/data/notes.txt'' pA \<and> \<not> ext_matches ''/data/notes.txt'' pB
   \<and> identify [pA, pB] ''/data/notes.txt'' = None
   \<and> probed (identify_scan [pA, pB] ''/data/notes.txt'') = []"
proof -
  have h: "\<forall>P \<in> set [pA, pB]. \<not> ext_matches ''/data/notes.txt'' P"
    by (simp add: ext_matches_def splitext_ext_def basename_def pA_def pB_def)
  from identify_no_extension_match[OF h] h show ?thesis by simp
qed

text \<open>
  C10.  The loop of \<^verbatim>\<open>identify\<close> is never left through \<^verbatim>\<open>break\<close>: the flag of a plugin
  is still true when its index is visited.  The probes called are those of all plugins
  that match the extension, in registration order, until one confirms.
\<close>

theorem identify_never_breaks:
  "scan_exit (identify_scan plugins filename) \<noteq> Broke
   \<and> probed (identify_scan plugins filename) = probe_order filename 0 plugins"
  by (simp add: identify_scan_exit identify_scan_probed split: option.splits)

theorem identify_never_breaks_witness:
  "scan_exit (identify_scan [pA, pA, pB, pA] ''scan.hdf5'') \<noteq> Broke
   \<and> probed (identify_scan [pA, pA, pB, pA] ''scan.hdf5'') = [0, 1, 2]"
  using identify_never_breaks[of "[pA, pA, pB, pA]" "''scan.hdf5''"]
  by (simp add: probe_order_def ext_matches_def splitext_ext_def basename_def pA_def pB_def
        enumerate_eq_zip upt_rec)

section \<open>Properties of the discovery\<close>

lemma discover_loop_result:
  "discover_loop acc ms = Inr reg \<Longrightarrow> reg = acc @ loaded_with_read ms"
  by (induction acc ms rule: discover_loop.induct)
     (auto simp: loaded_with_read_def split: if_splits)

lemma discover_loop_skip:
  "except_ImportError e \<Longrightarrow>
     discover_loop acc (pre @ Inl e # post) = discover_loop acc (pre @ post)"
  by (induction acc pre rule: discover_loop.induct) auto

lemma discover_loop_total:
  "\<forall>e. Inl e \<in> set ms \<longrightarrow> except_ImportError e \<Longrightarrow>
     discover_loop acc ms = Inr (acc @ loaded_with_read ms)"
  by (induction acc ms rule: discover_loop.induct)
     (auto simp: loaded_with_read_def)

lemma loaded_with_read_readers:
  "P \<in> set (loaded_with_read ms) \<Longrightarrow> plugin_read P \<noteq> None"
  by (auto simp: loaded_with_read_def split: sum.splits if_splits)

text \<open>
  C9.  When discovery completes, the registry is exactly the list of the modules that
  loaded and define \<^verbatim>\<open>read\<close>, so every registered plugin has \<^verbatim>\<open>read\<close>.  A candidate
  whose loading raises \<^verbatim>\<open>ImportError\<close> changes nothing: discovery goes on as if the
  candidate were not there, and it completes whenever no candidate raises anything else.
\<close>

theorem discover_registers_readers_only:
  "(discover ms = Inr reg \<longrightarrow>
      reg = loaded_with_read ms \<and> (\<forall>P \<in> set reg. plugin_read P \<noteq> None))
   \<and> (except_ImportError e \<longrightarrow> discover (pre @ Inl e # post) = discover (pre @ post))
   \<and> ((\<forall>e'. Inl e' \<in> set ms \<longrightarrow> except_ImportError e') \<longrightarrow>
        discover ms = Inr (loaded_with_read ms))"
  using discover_loop_result[of "[]" ms reg] discover_loop_skip[of e "[]" pre post]
    discover_loop_total[of ms "[]"] loaded_with_read_readers[of _ ms]
  by (auto simp: discover_def)

theorem discover_registers_readers_only_witness:
  "discover [Inr pA, Inl ModuleNotFoundError, Inr pNoRead, Inr pB] = Inr [pA, pB]
   \<and> plugin_read pA \<noteq> None \<and> plugin_read pB \<noteq> None \<and> plugin_read pNoRead = None
   \<and> except_ImportError ModuleNotFoundError
   \<and> discover ([Inr pA] @ Inl ModuleNotFoundError # [Inr pNoRead, Inr pB])
       = discover ([Inr pA] @ [Inr pNoRead, Inr pB])"
proof -
  let ?ms = "[Inr pA, Inl ModuleNotFoundError, Inr pNoRead, Inr pB]"
  have all: "\<forall>e'. Inl e' \<in> set ?ms \<longrightarrow> except_ImportError e'" by auto
  have lw: "loaded_with_read ?ms = [pA, pB]"
    by (simp add: loaded_with_read_def pA_def pB_def pNoRead_def)
  note t = discover_registers_readers_only[of ?ms "[pA, pB]" ModuleNotFoundError
      "[Inr pA]" "[Inr pNoRead, Inr pB]"]
  from t all have d: "discover ?ms = Inr [pA, pB]" unfolding lw by blast
  from t d have r: "\<forall>P \<in> set [pA, pB]. plugin_read P \<noteq> None" by blast
  from t have s: "discover ([Inr pA] @ Inl ModuleNotFoundError # [Inr pNoRead, Inr pB])
       = discover ([Inr pA] @ [Inr pNoRead, Inr pB])" by simp
  have n: "plugin_read pNoRead = None" by (simp add: pNoRead_def)
  from d r s n show ?thesis by simp
qed

section \<open>Properties of load\<close>

text \<open>
  C3.  Called without a plugin, \<^verbatim>\<open>load\<close> asks \<^verbatim>\<open>identify\<close>; when that finds none, the
  call returns normally, the target object is as it was, and no \<^verbatim>\<open>read\<close> was made.
\<close>

theorem load_without_provider:
  "identify plugins filename = None \<Longrightarrow>
     load gd data_stack_data plugins filename stack_object None selection json
       = Inr (stack_object, [])"
  by (simp add: load_def)

theorem load_without_provider_witness:
  "identify [pA, pB] ''/data/notes.txt'' = None
   \<and> load griddata_stub (\<lambda>ds. demo_stack) [pA, pB] ''/data/notes.txt'' demo_stack None
        (Some [0, 1]) None = Inr (demo_stack, [])"
proof -
  have h: "identify [pA, pB] ''/data/notes.txt'' = None"
    by (simp add: identify_find confirms_def ext_matches_def splitext_ext_def
          basename_def pA_def pB_def)
  from load_without_provider[OF h] h show ?thesis by simp
qed

section \<open>Properties of the numpy operations\<close>

lemma wf_cube_iff:
  "wf_cube c \<longleftrightarrow> length (elems c) = shape0 c \<and>
     (\<forall>r < shape0 c. length (elems c ! r) = shape1 c \<and>
        (\<forall>k < shape1 c. length (elems c ! r ! k) = shape2 c))"
  by (auto simp: wf_cube_def list_all_length)

lemma wf_pad_columns: "wf_cube c \<Longrightarrow> wf_cube (pad_columns c n)"
  by (auto simp: wf_cube_iff pad_columns_def nth_append)

lemma shape_pad_columns [simp]:
  "shape0 (pad_columns c n) = shape0 c"
  "shape1 (pad_columns c n) = shape1 c + n"
  "shape2 (pad_columns c n) = shape2 c"
  by (simp_all add: pad_columns_def)

lemma at3_pad_columns:
  "wf_cube c \<Longrightarrow> r < shape0 c \<Longrightarrow> k < shape1 c + n \<Longrightarrow> e < shape2 c \<Longrightarrow>
     at3 (pad_columns c n) r k e = (if k < shape1 c then at3 c r k e else 0)"
  by (auto simp: wf_cube_iff pad_columns_def at3_def nth_append)

lemma vstack_props:
  assumes "wf_cube a" "wf_cube b" "shape1 a = shape1 b" "shape2 a = shape2 b"
  shows "\<exists>m. vstack a b = Inr m \<and> wf_cube m \<and> shape0 m = shape0 a + shape0 b
           \<and> shape1 m = shape1 a \<and> shape2 m = shape2 a
           \<and> (\<forall>r k e. at3 m r k e
                 = (if r < shape0 a then at3 a r k e else at3 b (r - shape0 a) k e))"
  using assms by (auto simp: vstack_def wf_cube_def at3_def nth_append)

section \<open>Stitching\<close>

lemma stitch_step:
  assumes rd: "rd filename temp (Some s) Omitted = Inr t1"
    and wfA: "wf_cube A" and wfB: "wf_cube (absdata t1)"
    and E: "shape2 A = shape2 (absdata t1)"
  shows "\<exists>M temp2. stitch_loop rd filename A temp reads (s # ss)
                     = stitch_loop rd filename M temp2 (reads @ [(Scratch, Some s)]) ss
                   \<and> stitched A (absdata t1) M"
proof -
  let ?B = "absdata t1"
  consider (gt) "shape1 A > shape1 ?B" | (lt) "shape1 A < shape1 ?B" | (eq) "shape1 A = shape1 ?B"
    by linarith
  then show ?thesis
  proof cases
    case gt
    let ?B' = "pad_columns ?B (shape1 A - shape1 ?B)"
    have wfB': "wf_cube ?B'" using wfB by (rule wf_pad_columns)
    have s1: "shape1 A = shape1 ?B'" using gt by simp
    have s2: "shape2 A = shape2 ?B'" using E by simp
    obtain M where v: "vstack A ?B' = Inr M" and wfM: "wf_cube M"
      and sh: "shape0 M = shape0 A + shape0 ?B'" "shape1 M = shape1 A" "shape2 M = shape2 A"
      and at: "\<And>r k e. at3 M r k e
                 = (if r < shape0 A then at3 A r k e else at3 ?B' (r - shape0 A) k e)"
      using vstack_props[OF wfA wfB' s1 s2] by blast
    have "stitched A ?B M"
      unfolding stitched_def using gt E wfM sh wfB
      by (auto simp: at at3_pad_columns max_def)
    moreover have "stitch_loop rd filename A temp reads (s # ss)
        = stitch_loop rd filename M (t1\<lparr>absdata := ?B'\<rparr>) (reads @ [(Scratch, Some s)]) ss"
      using rd gt v by (simp add: Let_def)
    ultimately show ?thesis by blast
  next
    case lt
    let ?A' = "pad_columns A (shape1 ?B - shape1 A)"
    have wfA': "wf_cube ?A'" using wfA by (rule wf_pad_columns)
    have s1: "shape1 ?A' = shape1 ?B" using lt by simp
    have s2: "shape2 ?A' = shape2 ?B" using E by simp
    obtain M where v: "vstack ?A' ?B = Inr M" and wfM: "wf_cube M"
      and sh: "shape0 M = shape0 ?A' + shape0 ?B" "shape1 M = shape1 ?A'" "shape2 M = shape2 ?A'"
      and at: "\<And>r k e. at3 M r k e
                 = (if r < shape0 ?A' then at3 ?A' r k e else at3 ?B (r - shape0 ?A') k e)"
      using vstack_props[OF wfA' wfB s1 s2] by blast
    have "stitched A ?B M"
      unfolding stitched_def using lt E wfM sh wfA
      by (auto simp: at at3_pad_columns max_def)
    moreover have "stitch_loop rd filename A temp reads (s # ss)
        = stitch_loop rd filename M t1 (reads @ [(Scratch, Some s)]) ss"
      using rd lt v by (simp add: Let_def)
    ultimately show ?thesis by blast
  next
    case eq
    obtain M where v: "vstack A ?B = Inr M" and wfM: "wf_cube M"
      and sh: "shape0 M = shape0 A + shape0 ?B" "shape1 M = shape1 A" "shape2 M = shape2 A"
      and at: "\<And>r k e. at3 M r k e
                 = (if r < shape0 A then at3 A r k e else at3 ?B (r - shape0 A) k e)"
      using vstack_props[OF wfA wfB eq E] by blast
    have "stitched A ?B M"
      unfolding stitched_def using eq E wfM sh
      by (auto simp: at max_def)
    moreover have "stitch_loop rd filename A temp reads (s # ss)
        = stitch_loop rd filename M t1 (reads @ [(Scratch, Some s)]) ss"
      using rd eq v by (simp add: Let_def)
    ultimately show ?thesis by blast
  qed
qed

lemma stitched_narrow_first:
  assumes "stitched A B M" "shape1 A < shape1 B"
  shows "shape0 M = shape0 A + shape0 B \<and> shape1 M = shape1 B \<and> shape2 M = shape2 A
     \<and> (\<forall>r < shape0 A. \<forall>k. shape1 A \<le> k \<and> k < shape1 B \<longrightarrow>
            (\<forall>e < shape2 A. at3 M r k e = 0))
     \<and> (\<forall>r < shape0 A. \<forall>k < shape1 A. \<forall>e < shape2 A. at3 M r k e = at3 A r k e)
     \<and> (\<forall>r < shape0 B. \<forall>k < shape1 B. \<forall>e < shape2 A.
            at3 M (shape0 A + r) k e = at3 B r k e)"
  using assms unfolding stitched_def by (auto simp: max_def)

text \<open>
  C4.  One pass of the stitching loop of \<^verbatim>\<open>load\<close>, with the accumulated cube \<open>A\<close> of shape
  \<open>(R1, C1, E)\<close> and the cube \<open>B\<close> of shape \<open>(R2, C2, E)\<close> just read, never raises: it
  goes on with a cube \<open>M\<close> of shape \<open>(R1 + R2, max C1 C2, E)\<close> that holds the rows of \<open>A\<close>
  and then the rows of \<open>B\<close>, the narrower ones filled with zeros.  For a selection of two,
  \<^verbatim>\<open>load\<close> leaves this cube in the target; with \<open>C1 < C2\<close> its shape is
  \<open>(R1 + R2, C2, E)\<close>, the columns \<open>C1..C2-1\<close> of the first \<open>R1\<close> rows are zero and the
  last \<open>R2\<close> rows are those of \<open>B\<close>.
\<close>

theorem load_stitches_selections:
  assumes rd: "rd filename temp (Some s) Omitted = Inr t1"
    and wfA: "wf_cube A" and wfB: "wf_cube (absdata t1)"
    and E: "shape2 A = shape2 (absdata t1)"
  shows "(\<exists>M temp2.
            stitch_loop rd filename A temp reads (s # ss)
              = stitch_loop rd filename M temp2 (reads @ [(Scratch, Some s)]) ss
            \<and> stitched A (absdata t1) M)
       \<and> (\<forall>so so1 s0 json data_stack_data.
            rd filename so (Some s0) (Given json) = Inr so1 \<and> absdata so1 = A
            \<and> data_stack_data (data_struct so1) = temp \<longrightarrow>
            (\<exists>so'. load_read rd data_stack_data filename so (Some [s0, s]) json
                      = Inr (so', [(Target, Some s0), (Scratch, Some s)])
                  \<and> stitched A (absdata t1) (absdata so')
                  \<and> (shape1 A < shape1 (absdata t1) \<longrightarrow>
                       shape0 (absdata so') = shape0 A + shape0 (absdata t1)
                       \<and> shape1 (absdata so') = shape1 (absdata t1)
                       \<and> shape2 (absdata so') = shape2 A
                       \<and> (\<forall>r < shape0 A. \<forall>k. shape1 A \<le> k \<and> k < shape1 (absdata t1) \<longrightarrow>
                              (\<forall>e < shape2 A. at3 (absdata so') r k e = 0))
                       \<and> (\<forall>r < shape0 (absdata t1). \<forall>k < shape1 (absdata t1). \<forall>e < shape2 A.
                              at3 (absdata so') (shape0 A + r) k e = at3 (absdata t1) r k e))))"
proof (intro conjI allI impI)
  show "\<exists>M temp2.
            stitch_loop rd filename A temp reads (s # ss)
              = stitch_loop rd filename M temp2 (reads @ [(Scratch, Some s)]) ss
            \<and> stitched A (absdata t1) M"
    using rd wfA wfB E by (rule stitch_step)
next
  fix so so1 s0 json and data_stack_data :: "'a \<Rightarrow> 'a stack"
  assume h: "rd filename so (Some s0) (Given json) = Inr so1 \<and> absdata so1 = A
            \<and> data_stack_data (data_struct so1) = temp"
  have "\<exists>M temp2.
          stitch_loop rd filename A temp [(Target, Some s0)] (s # [])
            = stitch_loop rd filename M temp2 ([(Target, Some s0)] @ [(Scratch, Some s)]) []
          \<and> stitched A (absdata t1) M"
    using rd wfA wfB E by (rule stitch_step)
  then obtain M temp2 where
    st: "stitch_loop rd filename A temp [(Target, Some s0)] [s]
           = Inr (M, temp2, [(Target, Some s0), (Scratch, Some s)])"
    and M: "stitched A (absdata t1) M"
    by auto
  let ?so' = "so1\<lparr>absdata := M, x_dist := D1 (arange (shape0 M)),
                 y_dist := D1 (arange (shape1 M)),
                 n_cols := int (length (arange (shape0 M))),
                 n_rows := int (length (arange (shape1 M)))\<rparr>"
  have "load_read rd data_stack_data filename so (Some [s0, s]) json
          = Inr (?so', [(Target, Some s0), (Scratch, Some s)])"
    using h st by simp
  moreover have "absdata ?so' = M" by simp
  ultimately show "\<exists>so'. load_read rd data_stack_data filename so (Some [s0, s]) json
                      = Inr (so', [(Target, Some s0), (Scratch, Some s)])
                  \<and> stitched A (absdata t1) (absdata so')
                  \<and> (shape1 A < shape1 (absdata t1) \<longrightarrow>
                       shape0 (absdata so') = shape0 A + shape0 (absdata t1)
                       \<and> shape1 (absdata so') = shape1 (absdata t1)
                       \<and> shape2 (absdata so') = shape2 A
                       \<and> (\<forall>r < shape0 A. \<forall>k. shape1 A \<le> k \<and> k < shape1 (absdata t1) \<longrightarrow>
                              (\<forall>e < shape2 A. at3 (absdata so') r k e = 0))
                       \<and> (\<forall>r < shape0 (absdata t1). \<forall>k < shape1 (absdata t1). \<forall>e < shape2 A.
                              at3 (absdata so') (shape0 A + r) k e = at3 (absdata t1) r k e))"
    using M stitched_narrow_first[of A "absdata t1" M]
    by (intro exI[of _ ?so']) (simp only: , blast)
qed

theorem load_stitches_selections_witness:
  "demo_read ''/data/scan.hdf5'' demo_stack (Some 1) Omitted
     = Inr (demo_stack\<lparr>absdata := cubeB, x_dist_instr := D1 [0, 1, 0, 1],
                        y_dist_instr := D1 [0, 0, 1, 1]\<rparr>)
   \<and> wf_cube cubeA \<and> wf_cube cubeB \<and> shape2 cubeA = shape2 cubeB
   \<and> shape1 cubeA < shape1 cubeB
   \<and> stitch_loop demo_read ''/data/scan.hdf5'' cubeA demo_stack [(Target, Some 0)] [1]
       = Inr (cubeM, demo_stack\<lparr>absdata := cubeB, x_dist_instr := D1 [0, 1, 0, 1],
                                 y_dist_instr := D1 [0, 0, 1, 1]\<rparr>,
              [(Target, Some 0), (Scratch, Some 1)])
   \<and> stitched cubeA cubeB cubeM
   \<and> shape0 cubeM = 2 \<and> shape1 cubeM = 2 \<and> shape2 cubeM = 1
   \<and> at3 cubeM 0 0 0 = 1 \<and> at3 cubeM 0 1 0 = 0 \<and> at3 cubeM 1 0 0 = 2 \<and> at3 cubeM 1 1 0 = 3"
proof -
  let ?t1 = "demo_stack\<lparr>absdata := cubeB, x_dist_instr := D1 [0, 1, 0, 1],
                        y_dist_instr := D1 [0, 0, 1, 1]\<rparr>"
  have rd: "demo_read ''/data/scan.hdf5'' demo_stack (Some 1) Omitted = Inr ?t1"
    by (simp add: demo_read_def)
  have wfA: "wf_cube cubeA" by (simp add: wf_cube_def cubeA_def)
  have wfB: "wf_cube (absdata ?t1)" by (simp add: wf_cube_def cubeB_def)
  have E: "shape2 cubeA = shape2 (absdata ?t1)" by (simp add: cubeA_def cubeB_def)
  have ev: "stitch_loop demo_read ''/data/scan.hdf5'' cubeA demo_stack [(Target, Some 0)] [1]
       = Inr (cubeM, ?t1, [(Target, Some 0), (Scratch, Some 1)])"
    by (simp add: demo_read_def demo_stack_def cubeA_def cubeB_def cubeM_def
          pad_columns_def vstack_def Let_def)
  from load_stitches_selections[where rd = demo_read and filename = "''/data/scan.hdf5''"
      and temp = demo_stack and s = 1 and ?t1.0 = ?t1 and A = cubeA
      and reads = "[(Target, Some 0)]" and ss = "[]", OF rd wfA wfB E, THEN conjunct1]
  obtain M temp2 where
    "stitch_loop demo_read ''/data/scan.hdf5'' cubeA demo_stack [(Target, Some 0)] [1]
       = stitch_loop demo_read ''/data/scan.hdf5'' M temp2
           ([(Target, Some 0)] @ [(Scratch, Some 1)]) []"
    and st: "stitched cubeA (absdata ?t1) M"
    by blast
  with ev have "M = cubeM" by simp
  with st have s: "stitched cubeA cubeB cubeM" by simp
  have v: "shape1 cubeA < shape1 cubeB" "shape0 cubeM = 2" "shape1 cubeM = 2"
    "shape2 cubeM = 1" "at3 cubeM 0 0 0 = 1" "at3 cubeM 0 1 0 = 0" "at3 cubeM 1 0 0 = 2"
    "at3 cubeM 1 1 0 = 3"
    by (simp_all add: cubeA_def cubeB_def cubeM_def at3_def)
  have wfB': "wf_cube cubeB" using wfB by simp
  have E': "shape2 cubeA = shape2 cubeB" using E by simp
  from rd wfA wfB' E' ev s v show ?thesis by (intro conjI)
qed

section \<open>Properties of the grid resampler\<close>

lemma fold_min_Min: "fold min vs (v::real) = Min (set (v # vs))"
proof (induction vs arbitrary: v)
  case Nil
  then show ?case by simp
next
  case (Cons w vs)
  have "fold min (w # vs) v = Min (set (min w v # vs))" using Cons.IH by simp
  also have "\<dots> = Min (set (v # w # vs))"
    by (cases "vs = []") (simp_all add: min.assoc min.commute)
  finally show ?case .
qed

lemma fold_max_Max: "fold max vs (v::real) = Max (set (v # vs))"
proof (induction vs arbitrary: v)
  case Nil
  then show ?case by simp
next
  case (Cons w vs)
  have "fold max (w # vs) v = Max (set (max w v # vs))" using Cons.IH by simp
  also have "\<dots> = Max (set (v # w # vs))"
    by (cases "vs = []") (simp_all add: max.assoc max.commute)
  finally show ?case .
qed

lemma min_max_eq:
  "min_max xs = (if xs = [] then Inl ValueError else Inr (Min (set xs), Max (set xs)))"
  by (cases xs) (simp_all add: min_max_def fold_min_Min fold_max_Max del: set_simps)





lemma flat_loop_frame:
  "flat_loop gd xs ys grid a out R C st tr is = (tr', Inr st') \<Longrightarrow> out \<noteq> a \<Longrightarrow>
     st' ! a = st ! a \<and> length st' = length st"
proof (induction "is" arbitrary: st tr)
  case Nil
  then show ?case by simp
next
  case (Cons i "is")
  from Cons.prems(1) obtain g m where
    rec: "flat_loop gd xs ys grid a out R C (st[out := set_slice (st ! out) i m])
            (tr @ [nearest_call xs ys grid (st ! a) i]) is = (tr', Inr st')"
    by (auto simp: Let_def nearest_call_def split: sum.splits)
  from Cons.IH[OF rec Cons.prems(2)] Cons.prems(2) show ?case by simp
qed

lemma flat_loop_trace:
  "out \<noteq> a \<Longrightarrow>
   \<exists>n \<le> length is.
     fst (flat_loop gd xs ys grid a out R C st tr is)
       = tr @ map (nearest_call xs ys grid (st ! a)) (take n is)
     \<and> (\<forall>st'. snd (flat_loop gd xs ys grid a out R C st tr is) = Inr st' \<longrightarrow> n = length is)"
proof (induction "is" arbitrary: st tr)
  case Nil
  then show ?case by simp
next
  case (Cons i "is")
  let ?call = "nearest_call xs ys grid (st ! a) i"
  show ?case
  proof (cases "gd ?call")
    case (Inl e)
    then have "fst (flat_loop gd xs ys grid a out R C st tr (i # is)) = tr @ map (nearest_call xs ys grid (st ! a)) (take 1 (i # is))
       \<and> (\<forall>st'. snd (flat_loop gd xs ys grid a out R C st tr (i # is)) \<noteq> Inr st')"
      by (simp add: Let_def nearest_call_def)
    then show ?thesis by (intro exI[of _ 1]) simp
  next
    case (Inr g)
    show ?thesis
    proof (cases "reshape (ravel g) R C")
      case (Inl e)
      with Inr have "fst (flat_loop gd xs ys grid a out R C st tr (i # is)) = tr @ map (nearest_call xs ys grid (st ! a)) (take 1 (i # is))
         \<and> (\<forall>st'. snd (flat_loop gd xs ys grid a out R C st tr (i # is)) \<noteq> Inr st')"
        by (simp add: Let_def nearest_call_def)
      then show ?thesis by (intro exI[of _ 1]) simp
    next
      case (Inr m)
      let ?st = "st[out := set_slice (st ! out) i m]"
      have step: "flat_loop gd xs ys grid a out R C st tr (i # is)
                    = flat_loop gd xs ys grid a out R C ?st (tr @ [?call]) is"
        using \<open>gd ?call = Inr g\<close> Inr by (simp add: Let_def nearest_call_def)
      have same: "?st ! a = st ! a" using Cons.prems by simp
      from Cons.IH[OF Cons.prems, of ?st "tr @ [?call]"] obtain n where
        n: "n \<le> length is"
          "fst (flat_loop gd xs ys grid a out R C ?st (tr @ [?call]) is)
             = (tr @ [?call]) @ map (nearest_call xs ys grid (?st ! a)) (take n is)"
          "\<forall>st'. snd (flat_loop gd xs ys grid a out R C ?st (tr @ [?call]) is) = Inr st' \<longrightarrow> n = length is"
        by blast
      show ?thesis
        using n unfolding step same by (intro exI[of _ "Suc n"]) simp
    qed
  qed
qed

lemma slice_loop_unassigned:
  "\<exists>e. slice_loop gd xd yd None a out R C xr yr st tr (i # is) = (tr, Inl e)"
  by (auto simp: Let_def split: sum.splits option.splits prod.splits)

lemma reshape_rows:
  assumes "reshape flat R C = Inr m"
  shows "length flat = R * C \<and> length m = R \<and> (\<forall>r<R. length (m ! r) = C)
         \<and> (\<forall>r<R. \<forall>k<C. m ! r ! k = flat ! (r * C + k))"
proof -
  from assms have len: "length flat = R * C"
    and m: "m = map (\<lambda>i. take C (drop (i * C) flat)) [0..<R]"
    by (auto simp: reshape_def split: if_splits)
  have bound: "r * C + C \<le> R * C" if "r < R" for r
  proof -
    from that have "Suc r \<le> R" by simp
    then have "Suc r * C \<le> R * C" by (rule mult_le_mono1)
    then show ?thesis by simp
  qed
  have "length (m ! r) = C" if "r < R" for r
    using bound[OF that] that len by (simp add: m)
  moreover have "m ! r ! k = flat ! (r * C + k)" if "r < R" "k < C" for r k
    using that bound[OF that(1)] len by (simp add: m)
  ultimately show ?thesis using len by (simp add: m)
qed

lemma wf_zeros_like: "wf_cube (zeros_like c)"
  by (simp add: wf_cube_def zeros_like_def list_all_length)

lemma shape_zeros_like [simp]:
  "shape0 (zeros_like c) = shape0 c" "shape1 (zeros_like c) = shape1 c"
  "shape2 (zeros_like c) = shape2 c"
  by (simp_all add: zeros_like_def)

lemma shape_set_slice [simp]:
  "shape0 (set_slice c i m) = shape0 c" "shape1 (set_slice c i m) = shape1 c"
  "shape2 (set_slice c i m) = shape2 c"
  by (simp_all add: set_slice_def)

lemma set_slice_props:
  assumes "wf_cube c" "length m = shape0 c" "\<forall>r<shape0 c. length (m ! r) = shape1 c"
  shows "wf_cube (set_slice c i m)"
    and "r < shape0 c \<Longrightarrow> k < shape1 c \<Longrightarrow> e < shape2 c \<Longrightarrow>
           at3 (set_slice c i m) r k e = (if e = i then m ! r ! k else at3 c r k e)"
  using assms by (auto simp: wf_cube_iff set_slice_def at3_def)

lemma flat_loop_contents:
  assumes "flat_loop gd xs ys grid a out R C st tr is = (tr', Inr st')"
    and "out \<noteq> a" "out < length st" "wf_cube (st ! out)"
    and "shape0 (st ! out) = R" "shape1 (st ! out) = C"
    and "\<forall>i \<in> set is. i < shape2 (st ! out)" "distinct is"
  shows "wf_cube (st' ! out) \<and> shape0 (st' ! out) = R \<and> shape1 (st' ! out) = C
         \<and> shape2 (st' ! out) = shape2 (st ! out)
         \<and> (\<forall>i \<in> set is. \<exists>g. gd (nearest_call xs ys grid (st ! a) i) = Inr g
               \<and> length (ravel g) = R * C
               \<and> (\<forall>r<R. \<forall>k<C. at3 (st' ! out) r k i = ravel g ! (r * C + k)))
         \<and> (\<forall>e. e \<notin> set is \<longrightarrow> e < shape2 (st ! out) \<longrightarrow>
               (\<forall>r<R. \<forall>k<C. at3 (st' ! out) r k e = at3 (st ! out) r k e))"
  using assms
proof (induction "is" arbitrary: st tr)
  case Nil
  then show ?case by simp
next
  case (Cons i "is")
  let ?call = "nearest_call xs ys grid (st ! a) i"
  from Cons.prems(1) obtain g m where
    g: "gd ?call = Inr g" and m: "reshape (ravel g) R C = Inr m" and
    rec: "flat_loop gd xs ys grid a out R C (st[out := set_slice (st ! out) i m])
            (tr @ [?call]) is = (tr', Inr st')"
    by (auto simp: Let_def nearest_call_def split: sum.splits)
  let ?st = "st[out := set_slice (st ! out) i m]"
  note rr = reshape_rows[OF m]
  have lm: "length m = shape0 (st ! out)" "\<forall>r<shape0 (st ! out). length (m ! r) = shape1 (st ! out)"
    using rr Cons.prems(5,6) by simp_all
  have out: "?st ! out = set_slice (st ! out) i m" using Cons.prems(3) by simp
  have wf': "wf_cube (?st ! out)"
    unfolding out by (rule set_slice_props(1)[OF Cons.prems(4) lm])
  have a: "?st ! a = st ! a" using Cons.prems(2) by simp
  have iE: "i < shape2 (st ! out)" using Cons.prems(7) by simp
  have IH: "wf_cube (st' ! out) \<and> shape0 (st' ! out) = R \<and> shape1 (st' ! out) = C
         \<and> shape2 (st' ! out) = shape2 (?st ! out)
         \<and> (\<forall>j \<in> set is. \<exists>g. gd (nearest_call xs ys grid (?st ! a) j) = Inr g
               \<and> length (ravel g) = R * C
               \<and> (\<forall>r<R. \<forall>k<C. at3 (st' ! out) r k j = ravel g ! (r * C + k)))
         \<and> (\<forall>e. e \<notin> set is \<longrightarrow> e < shape2 (?st ! out) \<longrightarrow>
               (\<forall>r<R. \<forall>k<C. at3 (st' ! out) r k e = at3 (?st ! out) r k e))"
    using Cons.prems(5,6,7,8)
    by (intro Cons.IH[OF rec Cons.prems(2) _ wf']) (simp_all add: out Cons.prems(3))
  have atset: "at3 (?st ! out) r k e = (if e = i then m ! r ! k else at3 (st ! out) r k e)"
    if "r < R" "k < C" "e < shape2 (st ! out)" for r k e
    unfolding out using set_slice_props(2)[OF Cons.prems(4) lm, of r k e i] that Cons.prems(5,6)
    by simp
  have inot: "i \<notin> set is" using Cons.prems(8) by simp
  have "\<exists>g. gd ?call = Inr g \<and> length (ravel g) = R * C
           \<and> (\<forall>r<R. \<forall>k<C. at3 (st' ! out) r k i = ravel g ! (r * C + k))"
  proof (intro exI[of _ g] conjI allI impI)
    show "gd ?call = Inr g" by (rule g)
    show "length (ravel g) = R * C" using rr by simp
    fix r k assume rk: "r < R" "k < C"
    have "at3 (st' ! out) r k i = at3 (?st ! out) r k i"
      using IH inot iE rk by (simp add: out)
    also have "\<dots> = m ! r ! k" using atset[OF rk iE] by simp
    also have "\<dots> = ravel g ! (r * C + k)" using rr rk by simp
    finally show "at3 (st' ! out) r k i = ravel g ! (r * C + k)" .
  qed
  moreover have "\<forall>e. e \<notin> set (i # is) \<longrightarrow> e < shape2 (st ! out) \<longrightarrow>
               (\<forall>r<R. \<forall>k<C. at3 (st' ! out) r k e = at3 (st ! out) r k e)"
    using IH atset by (simp add: out)
  ultimately show ?case using IH by (simp add: a out)
qed

lemma interp_1d_unfold:
  "a < length st \<Longrightarrow>
   interpolate_absdata_flat gd st a (D1 xs) (D1 ys) flat =
     (case min_max xs of Inl e \<Rightarrow> ([], Inl e)
      | Inr xr \<Rightarrow>
        (case min_max ys of Inl e \<Rightarrow> ([], Inl e)
         | Inr yr \<Rightarrow>
           (case flat_points flat xs ys (shape0 (st ! a)) (shape1 (st ! a)) of
              Inl e \<Rightarrow> ([], Inl e)
            | Inr pts \<Rightarrow>
               (case flat_loop gd xs ys
                       (meshgrid (linspace (fst xr) (snd xr) (shape0 (st ! a)))
                                 (linspace (fst yr) (snd yr) (shape1 (st ! a))))
                       a (length st) (shape0 (st ! a)) (shape1 (st ! a))
                       (st @ [zeros_like (st ! a)]) [] [0..<shape2 (st ! a)] of
                  (tr, Inl e) \<Rightarrow> (tr, Inl e)
                | (tr, Inr st2) \<Rightarrow> (tr, Inr (st2, length st))))))"
  by (simp add: interpolate_absdata_flat_def alloc_def Let_def nth_append
           split: sum.splits prod.splits)

lemma interp_1d:
  assumes a: "a < length st"
  shows "\<exists>n \<le> shape2 (st ! a).
     fst (interpolate_absdata_flat gd st a (D1 xs) (D1 ys) flat)
       = map (nearest_call xs ys (shared_grid xs ys (st ! a)) (st ! a)) [0..<n]
     \<and> (\<forall>st' out. snd (interpolate_absdata_flat gd st a (D1 xs) (D1 ys) flat) = Inr (st', out) \<longrightarrow>
          n = shape2 (st ! a) \<and> out = length st \<and> st' ! a = st ! a
          \<and> wf_cube (st' ! out) \<and> shape0 (st' ! out) = shape0 (st ! a)
          \<and> shape1 (st' ! out) = shape1 (st ! a) \<and> shape2 (st' ! out) = shape2 (st ! a)
          \<and> (\<forall>i < shape2 (st ! a).
                \<exists>g. gd (nearest_call xs ys (shared_grid xs ys (st ! a)) (st ! a) i) = Inr g
                  \<and> length (ravel g) = shape0 (st ! a) * shape1 (st ! a)
                  \<and> (\<forall>r < shape0 (st ! a). \<forall>k < shape1 (st ! a).
                        at3 (st' ! out) r k i = ravel g ! (r * shape1 (st ! a) + k))))"
proof -
  let ?I = "interpolate_absdata_flat gd st a (D1 xs) (D1 ys) flat"
  let ?R = "shape0 (st ! a)" and ?C = "shape1 (st ! a)" and ?E = "shape2 (st ! a)"
  let ?grid = "shared_grid xs ys (st ! a)"
  let ?st1 = "st @ [zeros_like (st ! a)]"
  show ?thesis
  proof (cases "xs = [] \<or> ys = [] \<or> (\<exists>e. flat_points flat xs ys ?R ?C = Inl e)")
    case True
    then have "\<exists>e. ?I = ([], Inl e)"
      unfolding interp_1d_unfold[OF a]
      by (auto simp: min_max_eq split: sum.splits)
    then show ?thesis by (intro exI[of _ 0]) auto
  next
    case False
    then obtain pts where ne: "xs \<noteq> []" "ys \<noteq> []"
      and pts: "flat_points flat xs ys ?R ?C = Inr pts"
      by (cases "flat_points flat xs ys ?R ?C") auto
    let ?L = "flat_loop gd xs ys ?grid a (length st) ?R ?C ?st1 [] [0..<?E]"
    have I: "?I = (case ?L of (tr, Inl e) \<Rightarrow> (tr, Inl e)
                    | (tr, Inr st2) \<Rightarrow> (tr, Inr (st2, length st)))"
      unfolding interp_1d_unfold[OF a] using ne pts
      by (simp add: min_max_eq shared_grid_def)
    have oa: "length st \<noteq> a" using a by simp
    have sta: "?st1 ! a = st ! a" using a by (simp add: nth_append)
    have "\<exists>n \<le> length [0..<?E].
        fst ?L = [] @ map (nearest_call xs ys ?grid (?st1 ! a)) (take n [0..<?E])
        \<and> (\<forall>st'. snd ?L = Inr st' \<longrightarrow> n = length [0..<?E])"
      by (rule flat_loop_trace[OF oa])
    then obtain n where n0: "n \<le> length [0..<?E]"
      "fst ?L = [] @ map (nearest_call xs ys ?grid (?st1 ! a)) (take n [0..<?E])"
      "\<forall>st'. snd ?L = Inr st' \<longrightarrow> n = length [0..<?E]"
      by blast
    have n: "n \<le> ?E"
      "fst ?L = map (nearest_call xs ys ?grid (st ! a)) (take n [0..<?E])"
      "\<forall>st'. snd ?L = Inr st' \<longrightarrow> n = ?E"
      using n0 sta by simp_all
    have tk: "take n [0..<?E] = [0..<n]" using n(1) by (simp add: take_upt)
    have fstI: "fst ?I = fst ?L" unfolding I by (simp split: prod.splits sum.splits)
    have sndI: "snd ?L = Inr st' \<and> out = length st" if "snd ?I = Inr (st', out)" for st' out
      using that unfolding I by (auto split: prod.splits sum.splits)
    have main: "n = ?E \<and> out = length st \<and> st' ! a = st ! a
          \<and> wf_cube (st' ! out) \<and> shape0 (st' ! out) = ?R
          \<and> shape1 (st' ! out) = ?C \<and> shape2 (st' ! out) = ?E
          \<and> (\<forall>i < ?E.
                \<exists>g. gd (nearest_call xs ys ?grid (st ! a) i) = Inr g
                  \<and> length (ravel g) = ?R * ?C
                  \<and> (\<forall>r < ?R. \<forall>k < ?C. at3 (st' ! out) r k i = ravel g ! (r * ?C + k)))"
      if "snd ?I = Inr (st', out)" for st' out
    proof -
      from sndI[OF that] have L: "snd ?L = Inr st'" and out: "out = length st" by auto
      then have L': "?L = (fst ?L, Inr st')" by (metis prod.collapse)
      have o: "?st1 ! length st = zeros_like (st ! a)" by simp
      from flat_loop_frame[OF L' oa] have fr: "st' ! a = st ! a" using sta by simp
      have c: "wf_cube (st' ! length st) \<and> shape0 (st' ! length st) = ?R
         \<and> shape1 (st' ! length st) = ?C
         \<and> shape2 (st' ! length st) = shape2 (?st1 ! length st)
         \<and> (\<forall>i \<in> set [0..<?E]. \<exists>g. gd (nearest_call xs ys ?grid (?st1 ! a) i) = Inr g
               \<and> length (ravel g) = ?R * ?C
               \<and> (\<forall>r<?R. \<forall>k<?C. at3 (st' ! length st) r k i = ravel g ! (r * ?C + k)))
         \<and> (\<forall>e. e \<notin> set [0..<?E] \<longrightarrow> e < shape2 (?st1 ! length st) \<longrightarrow>
               (\<forall>r<?R. \<forall>k<?C. at3 (st' ! length st) r k e = at3 (?st1 ! length st) r k e))"
        by (rule flat_loop_contents[OF L' oa]) (simp_all add: wf_zeros_like)
      show ?thesis using c n(3) L out fr by (simp add: sta)
    qed
    show ?thesis
      using n(1) n(2) main unfolding fstI tk by (intro exI[of _ n]) blast
  qed
qed

lemma interp_2d_raises:
  assumes "(\<exists>m rows. xd = D2 m rows) \<or> (\<exists>m rows. yd = D2 m rows)"
    and "0 < shape2 (st ! a)" and "a < length st"
  shows "\<exists>e. interpolate_absdata_flat gd st a xd yd flat = ([], Inl e)"
proof -
  let ?st1 = "st @ [zeros_like (st ! a)]"
  have sl: "[0..<shape2 (?st1 ! a)] = 0 # [1..<shape2 (st ! a)]"
    using assms(2,3) by (simp add: nth_append upt_conv_Cons)
  have loop: "\<exists>e. slice_loop gd xd yd None a (length st) R C None None ?st1 []
                    [0..<shape2 (?st1 ! a)] = ([], Inl e)" for R C
    unfolding sl by (rule slice_loop_unassigned)
  from assms(1) have not1: "\<not> (\<exists>xs ys. xd = D1 xs \<and> yd = D1 ys)" by auto
  show ?thesis
  proof (cases "axis_range xd")
    case (Inl e)
    then show ?thesis by (simp add: interpolate_absdata_flat_def alloc_def Let_def)
  next
    case xr: (Inr xr)
    show ?thesis
    proof (cases "axis_range yd")
      case (Inl e)
      with xr show ?thesis
        by (simp add: interpolate_absdata_flat_def alloc_def Let_def split: prod.splits)
    next
      case yr: (Inr yr)
      obtain e where e: "slice_loop gd xd yd None a (length st) (shape0 (st ! a))
            (shape1 (st ! a)) None None ?st1 [] [0..<shape2 (?st1 ! a)] = ([], Inl e)"
        using loop by blast
      show ?thesis
        using xr yr not1 e
        by (cases xd; cases yd)
           (auto simp: interpolate_absdata_flat_def alloc_def Let_def split: prod.splits)
    qed
  qed
qed

lemma interp_frame:
  assumes "snd (interpolate_absdata_flat gd st a xd yd flat) = Inr (st', out)"
    and a: "a < length st"
  shows "out = length st \<and> st' ! a = st ! a
         \<and> shape0 (st' ! out) = shape0 (st ! a) \<and> shape1 (st' ! out) = shape1 (st ! a)
         \<and> shape2 (st' ! out) = shape2 (st ! a)"
proof (cases "\<exists>xs ys. xd = D1 xs \<and> yd = D1 ys")
  case True
  then obtain xs ys where d: "xd = D1 xs" "yd = D1 ys" by blast
  from interp_1d[OF a, of gd xs ys flat] assms(1) show ?thesis
    unfolding d by blast
next
  case False
  then have two: "(\<exists>m rows. xd = D2 m rows) \<or> (\<exists>m rows. yd = D2 m rows)"
    by (cases xd; cases yd) auto
  show ?thesis
  proof (cases "0 < shape2 (st ! a)")
    case True
    from interp_2d_raises[OF two True a, of gd flat] assms(1) show ?thesis by auto
  next
    case False
    let ?st1 = "st @ [zeros_like (st ! a)]"
    have sa: "?st1 ! a = st ! a" using a by (simp add: nth_append)
    have so: "?st1 ! length st = zeros_like (st ! a)" by simp
    have E: "[0..<shape2 (?st1 ! a)] = []" using False sa by simp
    have e: "slice_loop gd xd yd None a (length st) (shape0 (st ! a))
            (shape1 (st ! a)) None None ?st1 [] [0..<shape2 (?st1 ! a)] = ([], Inr ?st1)"
      unfolding E by simp
    from assms(1) two have "st' = ?st1 \<and> out = length st"
      using e
      by (cases xd; cases yd)
         (auto simp: interpolate_absdata_flat_def alloc_def Let_def
               split: prod.splits sum.splits)
    then show ?thesis using sa so by simp
  qed
qed

lemma demo_load_read:
  "load_read demo_read (\<lambda>ds. demo_stack) ''/data/scan.hdf5'' demo_stack (Some [0, 1]) None
     = Inr (demo_filled, [(Target, Some 0), (Scratch, Some 1)])"
  by (simp add: demo_read_def demo_stack_def demo_filled_def cubeA_def cubeB_def cubeM_def
        pad_columns_def vstack_def arange_def Let_def upt_rec)

lemma demo_interpolate:
  "interpolate_absdata_flat griddata_stub [cubeM] 0 (D1 [0, 1, 0, 1]) (D1 [0, 0, 1, 1]) True
     = ([nearest_call [0, 1, 0, 1] [0, 0, 1, 1] ([[0, 1], [0, 1]], [[0, 0], [1, 1]]) cubeM 0],
        Inr ([cubeM, demo_interpolated], 1))"
  by (simp add: interpolate_absdata_flat_def alloc_def Let_def cubeM_def demo_interpolated_def
        min_max_def linspace_def meshgrid_def flat_points_def reshape_def column_stack_def
        zeros_like_def nearest_call_def griddata_stub_def slice2_def ravel_T_def ravel_def
        set_slice_def upt_rec eval_nat_numeral)



text \<open>
  C8 (what the code does instead).  When one of the coordinate arrays is 2-dimensional
  and the cube has at least one slice, \<^verbatim>\<open>interpolate_absdata_flat\<close> raises before any call
  of \<^verbatim>\<open>griddata\<close>: no slice is resampled and no cube is returned.  On well-formed
  2-dimensional coordinates the exception is the \<^verbatim>\<open>UnboundLocalError\<close> of
  \<^verbatim>\<open>original_points\<close>, which that branch never assigns.
\<close>

theorem resample_2d_raises:
  assumes "(\<exists>m rows. xd = D2 m rows) \<or> (\<exists>m rows. yd = D2 m rows)"
    and "0 < shape2 (st ! a)" and "a < length st"
  shows "\<exists>e. interpolate_absdata_flat gd st a xd yd flat = ([], Inl e)"
  using assms by (rule interp_2d_raises)

theorem resample_2d_raises_witness:
  "0 < shape2 ([cubeM] ! 0) \<and> 0 < length [cubeM]
   \<and> interpolate_absdata_flat griddata_stub [cubeM] 0 (D2 1 [[0], [1]]) (D2 1 [[0], [1]]) True
       = ([], Inl UnboundLocalError)"
proof -
  have h1: "(\<exists>m rows. D2 1 [[0], [1]] = D2 m rows) \<or> (\<exists>m rows. D2 1 [[0], [1]] = D2 m rows)"
    by blast
  have h2: "0 < shape2 ([cubeM] ! 0)" by (simp add: cubeM_def)
  have h3: "0 < length [cubeM]" by simp
  from resample_2d_raises[OF h1 h2 h3, of griddata_stub True]
  obtain e where e: "interpolate_absdata_flat griddata_stub [cubeM] 0 (D2 1 [[0], [1]])
      (D2 1 [[0], [1]]) True = ([], Inl e)" by blast
  have "snd (interpolate_absdata_flat griddata_stub [cubeM] 0 (D2 1 [[0], [1]])
      (D2 1 [[0], [1]]) True) = Inl UnboundLocalError"
    by (simp add: interpolate_absdata_flat_def alloc_def Let_def cubeM_def column_def
          min_max_def zeros_like_def upt_rec)
  with e have "e = UnboundLocalError" by simp
  with e h2 h3 show ?thesis by simp
qed

section \<open>Properties of load, continued\<close>

lemma demo_load:
  "load griddata_stub (\<lambda>ds. demo_stack) [pA, pB] ''/data/scan.hdf5'' demo_stack None
     (Some [0, 1]) None
     = Inr (demo_filled\<lparr>absdata_interpolated := Some demo_interpolated\<rparr>,
            [(Target, Some 0), (Scratch, Some 1)])"
proof -
  have i: "identify [pA, pB] ''/data/scan.hdf5'' = Some pB"
    by (simp add: identify_find confirms_def ext_matches_def splitext_ext_def basename_def
          pA_def pB_def)
  have r: "plugin_read pB = Some demo_read" by (simp add: pB_def)
  have f: "absdata demo_filled = cubeM" "x_dist_instr demo_filled = D1 [0, 1, 0, 1]"
    "y_dist_instr demo_filled = D1 [0, 0, 1, 1]"
    by (simp_all add: demo_filled_def)
  have "load griddata_stub (\<lambda>ds. demo_stack) [pA, pB] ''/data/scan.hdf5'' demo_stack None
          (Some [0, 1]) None
        = Inr (demo_filled\<lparr>absdata := [cubeM, demo_interpolated] ! 0,
                 absdata_interpolated := Some ([cubeM, demo_interpolated] ! 1)\<rparr>,
               [(Target, Some 0), (Scratch, Some 1)])"
    by (simp only: load_def i r demo_load_read f demo_interpolate option.case sum.case
          prod.case snd_conv)
  then show ?thesis by (simp add: demo_filled_def)
qed

lemma load_read_multi:
  "load_read rd mk filename so (Some (s # s' # ss)) json = Inr (so', reads) \<Longrightarrow>
     x_dist so' = D1 (arange (shape0 (absdata so')))
     \<and> y_dist so' = D1 (arange (shape1 (absdata so')))
     \<and> n_cols so' = int (shape0 (absdata so'))
     \<and> n_rows so' = int (shape1 (absdata so'))"
  by (auto simp: arange_def split: sum.splits)

lemma load_unfold:
  assumes "(case plugin of None \<Rightarrow> identify plugins filename | Some P \<Rightarrow> Some P) = Some P"
    and "plugin_read P = Some rd"
    and "load_read rd mk filename so selection json = Inr (so1, reads)"
  shows "load gd mk plugins filename so plugin selection json =
           (case snd (interpolate_absdata_flat gd [absdata so1] 0
                        (x_dist_instr so1) (y_dist_instr so1) True) of
              Inl e \<Rightarrow> Inl e
            | Inr (st, out) \<Rightarrow> Inr (so1\<lparr>absdata_interpolated := Some (st ! out)\<rparr>, reads))"
proof (cases "snd (interpolate_absdata_flat gd [absdata so1] 0
                        (x_dist_instr so1) (y_dist_instr so1) True)")
  case (Inl e)
  then show ?thesis using assms by (simp add: load_def)
next
  case (Inr r)
  obtain st out where r: "r = (st, out)" by (cases r)
  have "st ! 0 = [absdata so1] ! 0"
    using interp_frame[of gd "[absdata so1]" 0 _ _ True st out] Inr r by simp
  then show ?thesis using assms Inr r by (simp add: load_def)
qed

text \<open>
  C5.  For a selection of more than one entry, once the cubes are merged \<^verbatim>\<open>x_dist\<close> is
  \<open>0, 1, ..., R-1\<close> and \<^verbatim>\<open>y_dist\<close> is \<open>0, 1, ..., C-1\<close>, with \<open>R\<close> and \<open>C\<close> the row and column
  counts of the merged cube, and \<^verbatim>\<open>n_cols\<close>, \<^verbatim>\<open>n_rows\<close> are their lengths.  This holds
  after the reading step and for the object that \<^verbatim>\<open>load\<close> leaves when a plugin was used
  and the call returns.
\<close>

theorem load_reindexes_coordinates:
  assumes "1 < length sel"
  shows "(\<forall>rd so1 reads.
            load_read rd data_stack_data filename so (Some sel) json = Inr (so1, reads) \<longrightarrow>
            x_dist so1 = D1 (map real [0..<shape0 (absdata so1)])
            \<and> y_dist so1 = D1 (map real [0..<shape1 (absdata so1)])
            \<and> n_cols so1 = int (shape0 (absdata so1))
            \<and> n_rows so1 = int (shape1 (absdata so1)))
       \<and> (\<forall>P final reads.
            (case plugin of None \<Rightarrow> identify plugins filename | Some P \<Rightarrow> Some P) = Some P
            \<and> load gd data_stack_data plugins filename so plugin (Some sel) json
                 = Inr (final, reads) \<longrightarrow>
            x_dist final = D1 (map real [0..<shape0 (absdata final)])
            \<and> y_dist final = D1 (map real [0..<shape1 (absdata final)])
            \<and> n_cols final = int (shape0 (absdata final))
            \<and> n_rows final = int (shape1 (absdata final)))"
proof -
  from assms obtain s s' ss where sel: "sel = s # s' # ss"
    by (cases sel; cases "tl sel") auto
  have pop: "x_dist so1 = D1 (map real [0..<shape0 (absdata so1)])
            \<and> y_dist so1 = D1 (map real [0..<shape1 (absdata so1)])
            \<and> n_cols so1 = int (shape0 (absdata so1))
            \<and> n_rows so1 = int (shape1 (absdata so1))"
    if "load_read rd data_stack_data filename so (Some sel) json = Inr (so1, reads)"
    for rd so1 reads
    using load_read_multi[of rd data_stack_data filename so s s' ss json so1 reads] that
    by (simp add: sel arange_def)
  have fin: "x_dist final = D1 (map real [0..<shape0 (absdata final)])
            \<and> y_dist final = D1 (map real [0..<shape1 (absdata final)])
            \<and> n_cols final = int (shape0 (absdata final))
            \<and> n_rows final = int (shape1 (absdata final))"
    if ch: "(case plugin of None \<Rightarrow> identify plugins filename | Some P \<Rightarrow> Some P) = Some P"
      and ld: "load gd data_stack_data plugins filename so plugin (Some sel) json
                 = Inr (final, reads)"
    for P final reads
  proof -
    from ch ld obtain rd where rd: "plugin_read P = Some rd"
      by (cases "plugin_read P") (auto simp: load_def)
    from ch ld rd obtain so1 reads1 where
      lr: "load_read rd data_stack_data filename so (Some sel) json = Inr (so1, reads1)"
      by (cases "load_read rd data_stack_data filename so (Some sel) json")
         (auto simp: load_def)
    from load_unfold[OF ch rd lr, of gd] ld obtain c where
      "final = so1\<lparr>absdata_interpolated := c\<rparr>"
      by (auto split: sum.splits)
    with pop[OF lr] show ?thesis by simp
  qed
  from pop fin show ?thesis by blast
qed

theorem load_reindexes_coordinates_witness:
  "1 < length [0, 1::nat]
   \<and> load griddata_stub (\<lambda>ds. demo_stack) [pA, pB] ''/data/scan.hdf5'' demo_stack None
       (Some [0, 1]) None
       = Inr (demo_filled\<lparr>absdata_interpolated := Some demo_interpolated\<rparr>,
              [(Target, Some 0), (Scratch, Some 1)])
   \<and> absdata demo_filled = cubeM \<and> shape0 cubeM = 2 \<and> shape1 cubeM = 2
   \<and> x_dist (demo_filled\<lparr>absdata_interpolated := Some demo_interpolated\<rparr>) = D1 [0, 1]
   \<and> y_dist (demo_filled\<lparr>absdata_interpolated := Some demo_interpolated\<rparr>) = D1 [0, 1]
   \<and> n_cols (demo_filled\<lparr>absdata_interpolated := Some demo_interpolated\<rparr>) = 2
   \<and> n_rows (demo_filled\<lparr>absdata_interpolated := Some demo_interpolated\<rparr>) = 2"
proof -
  have l: "1 < length [0, 1::nat]" by simp
  have i: "(case None of None \<Rightarrow> identify [pA, pB] ''/data/scan.hdf5'' | Some P \<Rightarrow> Some P)
             = Some pB"
    by (simp add: identify_find confirms_def ext_matches_def splitext_ext_def
          basename_def pA_def pB_def)
  have sh: "absdata demo_filled = cubeM" "shape0 cubeM = 2" "shape1 cubeM = 2"
    by (simp_all add: demo_filled_def cubeM_def)
  from load_reindexes_coordinates[OF l, where data_stack_data = "\<lambda>ds. demo_stack"
      and filename = "''/data/scan.hdf5''" and so = demo_stack and json = None
      and plugin = None and plugins = "[pA, pB]" and gd = griddata_stub] i demo_load
  have "x_dist (demo_filled\<lparr>absdata_interpolated := Some demo_interpolated\<rparr>)
          = D1 (map real [0..<shape0 (absdata (demo_filled\<lparr>absdata_interpolated := Some demo_interpolated\<rparr>))])
      \<and> y_dist (demo_filled\<lparr>absdata_interpolated := Some demo_interpolated\<rparr>)
          = D1 (map real [0..<shape1 (absdata (demo_filled\<lparr>absdata_interpolated := Some demo_interpolated\<rparr>))])
      \<and> n_cols (demo_filled\<lparr>absdata_interpolated := Some demo_interpolated\<rparr>)
          = int (shape0 (absdata (demo_filled\<lparr>absdata_interpolated := Some demo_interpolated\<rparr>)))
      \<and> n_rows (demo_filled\<lparr>absdata_interpolated := Some demo_interpolated\<rparr>)
          = int (shape1 (absdata (demo_filled\<lparr>absdata_interpolated := Some demo_interpolated\<rparr>)))"
    by blast
  then show ?thesis using l demo_load sh by (simp add: upt_rec)
qed

text \<open>
  C6.  Whenever a plugin is in use and the reading step has filled the object, whatever
  the selection, \<^verbatim>\<open>load\<close> goes on with \<^verbatim>\<open>interpolate_absdata_flat\<close> on the cube of the
  object and on \<^verbatim>\<open>x_dist_instr\<close>, \<^verbatim>\<open>y_dist_instr\<close>: the outcome of \<^verbatim>\<open>load\<close> is the
  exception of the resampler or the filled object with only \<^verbatim>\<open>absdata_interpolated\<close>
  changed.  The resampler writes to a new array (address 1 of the store) and leaves the
  cube it was given (address 0) as it was; the new cube has the shape of the old one.
\<close>

theorem load_resamples_populated_cube:
  assumes "(case plugin of None \<Rightarrow> identify plugins filename | Some P \<Rightarrow> Some P) = Some P"
    and "plugin_read P = Some rd"
    and "load_read rd data_stack_data filename so selection json = Inr (so1, reads)"
  shows "load gd data_stack_data plugins filename so plugin selection json =
           (case snd (interpolate_absdata_flat gd [absdata so1] 0
                        (x_dist_instr so1) (y_dist_instr so1) True) of
              Inl e \<Rightarrow> Inl e
            | Inr (st, out) \<Rightarrow> Inr (so1\<lparr>absdata_interpolated := Some (st ! out)\<rparr>, reads))
       \<and> (\<forall>st out. snd (interpolate_absdata_flat gd [absdata so1] 0
                        (x_dist_instr so1) (y_dist_instr so1) True) = Inr (st, out) \<longrightarrow>
             out = 1 \<and> st ! 0 = absdata so1
             \<and> shape0 (st ! out) = shape0 (absdata so1)
             \<and> shape1 (st ! out) = shape1 (absdata so1)
             \<and> shape2 (st ! out) = shape2 (absdata so1))
       \<and> (\<forall>final reads'.
             load gd data_stack_data plugins filename so plugin selection json
               = Inr (final, reads') \<longrightarrow>
             absdata final = absdata so1 \<and> reads' = reads
             \<and> (\<exists>c. absdata_interpolated final = Some c
                    \<and> final = so1\<lparr>absdata_interpolated := Some c\<rparr>
                    \<and> shape0 c = shape0 (absdata so1) \<and> shape1 c = shape1 (absdata so1)
                    \<and> shape2 c = shape2 (absdata so1)))"
proof -
  let ?I = "snd (interpolate_absdata_flat gd [absdata so1] 0
                        (x_dist_instr so1) (y_dist_instr so1) True)"
  have u: "load gd data_stack_data plugins filename so plugin selection json =
           (case ?I of Inl e \<Rightarrow> Inl e
            | Inr (st, out) \<Rightarrow> Inr (so1\<lparr>absdata_interpolated := Some (st ! out)\<rparr>, reads))"
    by (rule load_unfold[OF assms])
  have fr: "out = 1 \<and> st ! 0 = absdata so1
             \<and> shape0 (st ! out) = shape0 (absdata so1)
             \<and> shape1 (st ! out) = shape1 (absdata so1)
             \<and> shape2 (st ! out) = shape2 (absdata so1)"
    if "?I = Inr (st, out)" for st out
    using interp_frame[OF that] by auto
  have fin: "absdata final = absdata so1 \<and> reads' = reads
             \<and> (\<exists>c. absdata_interpolated final = Some c
                    \<and> final = so1\<lparr>absdata_interpolated := Some c\<rparr>
                    \<and> shape0 c = shape0 (absdata so1) \<and> shape1 c = shape1 (absdata so1)
                    \<and> shape2 c = shape2 (absdata so1))"
    if "load gd data_stack_data plugins filename so plugin selection json
               = Inr (final, reads')" for final reads'
  proof -
    from that u obtain st out where I: "?I = Inr (st, out)"
      and f: "final = so1\<lparr>absdata_interpolated := Some (st ! out)\<rparr>" "reads' = reads"
      by (auto split: sum.splits)
    from fr[OF I] f show ?thesis by auto
  qed
  from u fr fin show ?thesis by blast
qed

theorem load_resamples_populated_cube_witness:
  "identify [pA, pB] ''/data/scan.hdf5'' = Some pB \<and> plugin_read pB = Some demo_read
   \<and> load_read demo_read (\<lambda>ds. demo_stack) ''/data/scan.hdf5'' demo_stack (Some [0, 1]) None
        = Inr (demo_filled, [(Target, Some 0), (Scratch, Some 1)])
   \<and> load griddata_stub (\<lambda>ds. demo_stack) [pA, pB] ''/data/scan.hdf5'' demo_stack None
       (Some [0, 1]) None
       = Inr (demo_filled\<lparr>absdata_interpolated := Some demo_interpolated\<rparr>,
              [(Target, Some 0), (Scratch, Some 1)])
   \<and> absdata (demo_filled\<lparr>absdata_interpolated := Some demo_interpolated\<rparr>) = cubeM"
proof -
  have i: "(case None of None \<Rightarrow> identify [pA, pB] ''/data/scan.hdf5'' | Some P \<Rightarrow> Some P)
             = Some pB"
    by (simp add: identify_find confirms_def ext_matches_def splitext_ext_def
          basename_def pA_def pB_def)
  have r: "plugin_read pB = Some demo_read" by (simp add: pB_def)
  have f: "absdata demo_filled = cubeM" "x_dist_instr demo_filled = D1 [0, 1, 0, 1]"
    "y_dist_instr demo_filled = D1 [0, 0, 1, 1]"
    by (simp_all add: demo_filled_def)
  note t = load_resamples_populated_cube[OF i r demo_load_read, of griddata_stub,
      THEN conjunct1]
  have "load griddata_stub (\<lambda>ds. demo_stack) [pA, pB] ''/data/scan.hdf5'' demo_stack None
       (Some [0, 1]) None
       = Inr (demo_filled\<lparr>absdata_interpolated := Some ([cubeM, demo_interpolated] ! 1)\<rparr>,
              [(Target, Some 0), (Scratch, Some 1)])"
    using t by (simp only: f demo_interpolate snd_conv sum.case prod.case)
  then have ld: "load griddata_stub (\<lambda>ds. demo_stack) [pA, pB] ''/data/scan.hdf5''
       demo_stack None (Some [0, 1]) None
       = Inr (demo_filled\<lparr>absdata_interpolated := Some demo_interpolated\<rparr>,
              [(Target, Some 0), (Scratch, Some 1)])"
    by simp
  have i': "identify [pA, pB] ''/data/scan.hdf5'' = Some pB" using i by simp
  have a: "absdata (demo_filled\<lparr>absdata_interpolated := Some demo_interpolated\<rparr>) = cubeM"
    using f by simp
  from i' r demo_load_read ld a show ?thesis by (intro conjI)
qed

end
